theory Spec2Isabelle
  imports
    Complex_Main
    "HOL-Library.Word"
    "HOL-Library.Char_ord"
    "HOL-Library.List_Lexorder"
begin

unbundle bit_operations_syntax

section \<open>JavaScript values\<close>

text \<open>
  A JavaScript number is a double. The model keeps the three kinds of value on which the
  code branches (not-a-number, the two infinities, a finite value) and idealises a finite
  double as a real number. Every comparison with \<open>NaN\<close> is false, as in JavaScript.
\<close>

datatype jsnum = NaN | NegInf | Fin real | PosInf

fun js_lt :: "jsnum \<Rightarrow> jsnum \<Rightarrow> bool" where
  "js_lt NaN _ = False"
| "js_lt _ NaN = False"
| "js_lt NegInf NegInf = False"
| "js_lt NegInf _ = True"
| "js_lt (Fin x) (Fin y) = (x < y)"
| "js_lt (Fin x) PosInf = True"
| "js_lt (Fin x) NegInf = False"
| "js_lt PosInf _ = False"

definition js_gt :: "jsnum \<Rightarrow> jsnum \<Rightarrow> bool" where
  "js_gt a b = js_lt b a"

definition js_le :: "jsnum \<Rightarrow> jsnum \<Rightarrow> bool" where
  "js_le a b = (a \<noteq> NaN \<and> b \<noteq> NaN \<and> \<not> js_lt b a)"

definition js_ge :: "jsnum \<Rightarrow> jsnum \<Rightarrow> bool" where
  "js_ge a b = js_le b a"

definition isNaN :: "jsnum \<Rightarrow> bool" where
  "isNaN x = (x = NaN)"

text \<open>\<open>x || 0\<close> on a number: \<open>NaN\<close> and zero are falsy.\<close>

definition or_zero :: "jsnum \<Rightarrow> jsnum" where
  "or_zero x = (if x = NaN \<or> x = Fin 0 then Fin 0 else x)"

text \<open>\<open>Math.round\<close>: the nearest integer, halves rounded up; infinities and \<open>NaN\<close> stay.\<close>

fun Math_round :: "jsnum \<Rightarrow> jsnum" where
  "Math_round (Fin x) = Fin (of_int \<lfloor>x + 1 / 2\<rfloor>)"
| "Math_round x = x"

text \<open>
  A field of a raw record or of a row, as it arrives from JSON: null, undefined (the field
  is missing), a boolean, a string, or a number. A number that is used as text (an
  identifier, a count) is an integer below \<open>10^21\<close>, which \<open>String\<close> renders in decimal.
  A string is the list of its code units; the texts of the feeds are ASCII, so a code
  unit is a \<open>char\<close>, and strings compare by code units, the first difference deciding.
\<close>

datatype jsval = JNull | JUndefined | JBool bool | JInt int | JStr string

fun truthy :: "jsval \<Rightarrow> bool" where
  "truthy JNull = False"
| "truthy JUndefined = False"
| "truthy (JBool b) = b"
| "truthy (JInt i) = (i \<noteq> 0)"
| "truthy (JStr s) = (s \<noteq> [])"

definition digit_char :: "nat \<Rightarrow> char" where
  "digit_char n = ''0123456789'' ! n"

fun show_nat :: "nat \<Rightarrow> string" where
  "show_nat n = (if n < 10 then [digit_char n] else show_nat (n div 10) @ [digit_char (n mod 10)])"

declare show_nat.simps [simp del]

definition show_int :: "int \<Rightarrow> string" where
  "show_int i = (if i < 0 then CHR ''-'' # show_nat (nat (- i)) else show_nat (nat i))"

fun String :: "jsval \<Rightarrow> string" where
  "String JNull = ''null''"
| "String JUndefined = ''undefined''"
| "String (JBool b) = (if b then ''true'' else ''false'')"
| "String (JInt i) = show_int i"
| "String (JStr s) = s"

definition is_digit :: "char \<Rightarrow> bool" where
  "is_digit c = (CHR ''0'' \<le> c \<and> c \<le> CHR ''9'')"

definition toUpperCase :: "char \<Rightarrow> char" where
  "toUpperCase c =
     (if CHR ''a'' \<le> c \<and> c \<le> CHR ''z'' then char_of (of_char c - (32::nat)) else c)"

section \<open>Normalizer: property identifiers\<close>

text \<open>
  \<^verbatim>\<open>normalizeBBL\<close>: a falsy value is absent; otherwise every character outside
  \<open>0-9\<close> is removed from the value's text, ten digits are returned as they are, nine
  digits get a leading zero and every other length is absent.
\<close>

definition normalizeBBL :: "jsval \<Rightarrow> string option" where
  "normalizeBBL bbl =
     (if \<not> truthy bbl then None
      else let numeric = filter is_digit (String bbl)
           in if length numeric = 10 then Some numeric
              else if length numeric = 9 then Some (CHR ''0'' # numeric)
              else None)"

section \<open>Classifier\<close>

text \<open>
  \<^verbatim>\<open>getPhysicalBuildingType(totalUnits, buildingClass)\<close>. The class code is a
  string or absent; the empty string is falsy. The last line is reached only when every
  comparison is false: for \<open>NaN\<close> and for a value strictly between 2 and 3.
\<close>

definition getPhysicalBuildingType :: "jsnum \<Rightarrow> string option \<Rightarrow> string" where
  "getPhysicalBuildingType totalUnits buildingClass =
     (if (case buildingClass of
            Some (c # cs) \<Rightarrow> toUpperCase c = CHR ''D'' \<or> toUpperCase c = CHR ''O''
          | _ \<Rightarrow> False)
      then ''mixed-use''
      else if js_ge totalUnits (Fin 50) then ''multifamily-elevator''
      else if js_ge totalUnits (Fin 10) then ''multifamily-walkup''
      else if js_ge totalUnits (Fin 3) then ''multifamily-walkup''
      else if js_le totalUnits (Fin 2) then ''one-two-family''
      else ''unknown'')"

text \<open>
  \<^verbatim>\<open>classifyBuildingType(totalUnits, affordableUnits, jobType, hasAffordableOverlay,
  buildingClass)\<close>: the affordability status first, then the alteration job type, then the
  physical type.
\<close>

definition classifyBuildingType ::
  "jsnum \<Rightarrow> jsnum \<Rightarrow> string option \<Rightarrow> bool \<Rightarrow> string option \<Rightarrow> string" where
  "classifyBuildingType totalUnits affordableUnits jobType hasAffordableOverlay buildingClass =
     (if hasAffordableOverlay \<and> js_gt affordableUnits (Fin 0) then ''affordable''
      else if jobType = Some ''Alteration'' then ''renovation''
      else getPhysicalBuildingType totalUnits buildingClass)"

section \<open>Construction records\<close>

text \<open>
  The object built by \<^verbatim>\<open>processDCPHousing\<close> for one job (\<open>building_id\<close> is its
  field \<^verbatim>\<open>id\<close>). Fields that are only copied from the raw record and never read
  again by the pipeline (job status, districts, dates, zoning, floors, ownership) are
  left out.
\<close>

record building =
  building_id :: string
  name :: string
  jobNumber :: string
  jobType :: string
  longitude :: jsnum
  latitude :: jsnum
  address :: string
  borough :: string
  bbl :: "string option"
  completionYear :: int
  totalUnits :: jsnum
  affordableUnits :: jsnum
  affordablePercentage :: jsnum
  extremeLowIncomeUnits :: jsnum
  veryLowIncomeUnits :: jsnum
  lowIncomeUnits :: jsnum
  moderateIncomeUnits :: jsnum
  middleIncomeUnits :: jsnum
  otherIncomeUnits :: jsnum
  studioUnits :: jsnum
  oneBrUnits :: jsnum
  twoBrUnits :: jsnum
  threeBrUnits :: jsnum
  fourBrUnits :: jsnum
  fiveBrUnits :: jsnum
  sixBrUnits :: jsnum
  unknownBrUnits :: jsnum
  buildingType :: string
  physicalBuildingType :: string
  buildingClass :: "string option"
  dataSource :: string
  hasAffordableOverlay :: bool
  housingNyProjectId :: jsval
  housingNyProjectName :: jsval
  housingNyConstructionType :: jsval
  housingNyExtendedAffordabilityOnly :: bool

text \<open>
  One raw record of the construction feed. A field that the code only reads through
  \<^verbatim>\<open>parseFloat\<close> or \<^verbatim>\<open>parseInt(_, 10)\<close> is given as the number that
  the parse returns: \<open>NaN\<close> when the text is not a number, an infinity for the text
  \<^verbatim>\<open>Infinity\<close> or a literal beyond the range of a double. \<^verbatim>\<open>parseInt\<close>
  returns an integer or \<open>NaN\<close> (\<open>None\<close>). Text fields are strings or absent.
\<close>

record dcp_record =
  Latitude :: jsnum
  Longitude :: jsnum
  CompltYear :: "int option"
  ClassANet :: jsnum
  Job_Number :: "string option"
  OBJECTID :: jsval
  BBL :: jsval
  Boro :: jsval
  AddressNum :: "string option"
  AddressSt :: "string option"
  Job_Type :: "string option"
  Bldg_Class :: "string option"

definition BOROUGH_NAMES :: "string \<rightharpoonup> string" where
  "BOROUGH_NAMES =
     [''1'' \<mapsto> ''Manhattan'', ''2'' \<mapsto> ''Bronx'', ''3'' \<mapsto> ''Brooklyn'',
      ''4'' \<mapsto> ''Queens'', ''5'' \<mapsto> ''Staten Island'']"

text \<open>\<open>s || d\<close> on a text field: absent and empty are falsy.\<close>

definition or_else :: "string option \<Rightarrow> string \<Rightarrow> string" where
  "or_else s d = (case s of None \<Rightarrow> d | Some t \<Rightarrow> if t = [] then d else t)"

definition is_space :: "char \<Rightarrow> bool" where
  "is_space c = (c \<in> set [CHR '' '', CHR 0x09, CHR 0x0A, CHR 0x0B, CHR 0x0C, CHR 0x0D])"

definition trim :: "string \<Rightarrow> string" where
  "trim s = rev (dropWhile is_space (rev (dropWhile is_space s)))"

text \<open>
  The body of the loop of \<^verbatim>\<open>processDCPHousing\<close> for one record: \<open>None\<close> when
  the record is skipped (the three \<^verbatim>\<open>continue\<close> branches), the new object
  otherwise. Two things the code does here are outside the model. The completion date,
  one of the fields left out, is built with
  \<^verbatim>\<open>new Date(record.DateComplt).toISOString()\<close>, which raises a
  \<^verbatim>\<open>RangeError\<close> for a text that is not a date. And \<open>BOROUGH_NAMES\<close> has only
  its own five keys: for a borough code such as \<^verbatim>\<open>constructor\<close> the object of the
  code finds a key it inherits and the name is not a string.
\<close>

definition process_record :: "dcp_record \<Rightarrow> building option" where
  "process_record r =
     (let lat = Latitude r; lon = Longitude r in
      if isNaN lat \<or> isNaN lon \<or> lat = Fin 0 \<or> lon = Fin 0 then None
      else case CompltYear r of
        None \<Rightarrow> None
      | Some year \<Rightarrow>
          if year < 2014 \<or> year > 2025 then None
          else
            let classANet = or_zero (ClassANet r);
                totalUnits = Math_round classANet
            in if js_le totalUnits (Fin 0) then None
               else
                 let jobNumber = or_else (Job_Number r) (''DCP-'' @ String (OBJECTID r));
                     bbl = normalizeBBL (BBL r);
                     borough = (case BOROUGH_NAMES (String (Boro r)) of
                                  Some b \<Rightarrow> b | None \<Rightarrow> ''Unknown'');
                     address = (let a = trim (or_else (AddressNum r) [] @ '' ''
                                              @ or_else (AddressSt r) [])
                                in if a = [] then ''Address Not Available'' else a)
                 in Some \<lparr>
                      building_id = jobNumber,
                      name = address @ '', '' @ borough,
                      jobNumber = jobNumber,
                      jobType = or_else (Job_Type r) ''Unknown'',
                      longitude = lon,
                      latitude = lat,
                      address = address,
                      borough = borough,
                      bbl = bbl,
                      completionYear = year,
                      totalUnits = totalUnits,
                      affordableUnits = Fin 0,
                      affordablePercentage = Fin 0,
                      extremeLowIncomeUnits = Fin 0,
                      veryLowIncomeUnits = Fin 0,
                      lowIncomeUnits = Fin 0,
                      moderateIncomeUnits = Fin 0,
                      middleIncomeUnits = Fin 0,
                      otherIncomeUnits = Fin 0,
                      studioUnits = Fin 0,
                      oneBrUnits = Fin 0,
                      twoBrUnits = Fin 0,
                      threeBrUnits = Fin 0,
                      fourBrUnits = Fin 0,
                      fiveBrUnits = Fin 0,
                      sixBrUnits = Fin 0,
                      unknownBrUnits = totalUnits,
                      buildingType =
                        classifyBuildingType totalUnits (Fin 0) (Job_Type r) False (Bldg_Class r),
                      physicalBuildingType = getPhysicalBuildingType totalUnits (Bldg_Class r),
                      buildingClass = (case Bldg_Class r of
                                         None \<Rightarrow> None
                                       | Some c \<Rightarrow> if c = [] then None else Some c),
                      dataSource = ''dcp'',
                      hasAffordableOverlay = False,
                      housingNyProjectId = JNull,
                      housingNyProjectName = JNull,
                      housingNyConstructionType = JNull,
                      housingNyExtendedAffordabilityOnly = False
                    \<rparr>)"

text \<open>
  \<^verbatim>\<open>processDCPHousing\<close>: the loop over the records, with the list of objects and
  the counter \<^verbatim>\<open>skipped\<close> as its state. The source returns the list and logs the
  counter; the model returns both.
\<close>

fun processDCPHousing_loop ::
  "dcp_record list \<Rightarrow> building list \<Rightarrow> nat \<Rightarrow> building list \<times> nat" where
  "processDCPHousing_loop [] buildings skipped = (buildings, skipped)"
| "processDCPHousing_loop (r # rs) buildings skipped =
     (case process_record r of
        None \<Rightarrow> processDCPHousing_loop rs buildings (skipped + 1)
      | Some b \<Rightarrow> processDCPHousing_loop rs (buildings @ [b]) skipped)"

definition processDCPHousing :: "dcp_record list \<Rightarrow> building list \<times> nat" where
  "processDCPHousing records = processDCPHousing_loop records [] 0"

text \<open>
  A raw record of the construction feed that is valid in every field but, possibly, its
  coordinates; used for concrete runs.
\<close>

definition sample_record :: "jsnum \<Rightarrow> jsnum \<Rightarrow> dcp_record" where
  "sample_record lat lon =
     \<lparr> Latitude = lat, Longitude = lon, CompltYear = Some 2020, ClassANet = Fin 5,
       Job_Number = Some ''NB-1'', OBJECTID = JInt 1, BBL = JStr ''1000123456'',
       Boro = JInt 1, AddressNum = Some ''10'', AddressSt = Some ''Main St'',
       Job_Type = Some ''New Building'', Bldg_Class = None \<rparr>"

section \<open>Overlay merger\<close>

text \<open>The value stored in the overlay mapping by \<^verbatim>\<open>processHousingNY\<close>.\<close>

record affordable_data =
  a_affordableUnits :: jsnum
  a_affordablePercentage :: jsnum
  a_extremeLowIncomeUnits :: jsnum
  a_veryLowIncomeUnits :: jsnum
  a_lowIncomeUnits :: jsnum
  a_moderateIncomeUnits :: jsnum
  a_middleIncomeUnits :: jsnum
  a_otherIncomeUnits :: jsnum
  a_studioUnits :: jsnum
  a_oneBrUnits :: jsnum
  a_twoBrUnits :: jsnum
  a_threeBrUnits :: jsnum
  a_fourBrUnits :: jsnum
  a_fiveBrUnits :: jsnum
  a_sixBrUnits :: jsnum
  a_unknownBrUnits :: jsnum
  projectId :: jsval
  projectName :: jsval
  constructionType :: jsval
  extendedAffordabilityOnly :: bool

text \<open>
  The body of the loop of \<^verbatim>\<open>overlayAffordableData\<close> for one object: nothing
  happens without an identifier or without an entry for it; otherwise
  \<^verbatim>\<open>Object.assign\<close> overwrites the affordability fields, and the type is computed
  again from the updated object.
\<close>

definition overlay_building ::
  "(string \<rightharpoonup> affordable_data) \<Rightarrow> 'a building_scheme \<Rightarrow> 'a building_scheme" where
  "overlay_building housingNyMap b =
     (case bbl b of
        None \<Rightarrow> b
      | Some k \<Rightarrow>
          if k = [] then b
          else case housingNyMap k of
            None \<Rightarrow> b
          | Some affordableData \<Rightarrow>
              let b1 = b\<lparr>
                    affordableUnits := a_affordableUnits affordableData,
                    affordablePercentage := a_affordablePercentage affordableData,
                    extremeLowIncomeUnits := a_extremeLowIncomeUnits affordableData,
                    veryLowIncomeUnits := a_veryLowIncomeUnits affordableData,
                    lowIncomeUnits := a_lowIncomeUnits affordableData,
                    moderateIncomeUnits := a_moderateIncomeUnits affordableData,
                    middleIncomeUnits := a_middleIncomeUnits affordableData,
                    otherIncomeUnits := a_otherIncomeUnits affordableData,
                    studioUnits := a_studioUnits affordableData,
                    oneBrUnits := a_oneBrUnits affordableData,
                    twoBrUnits := a_twoBrUnits affordableData,
                    threeBrUnits := a_threeBrUnits affordableData,
                    fourBrUnits := a_fourBrUnits affordableData,
                    fiveBrUnits := a_fiveBrUnits affordableData,
                    sixBrUnits := a_sixBrUnits affordableData,
                    unknownBrUnits := a_unknownBrUnits affordableData,
                    housingNyProjectId := projectId affordableData,
                    housingNyProjectName := projectName affordableData,
                    housingNyConstructionType := constructionType affordableData,
                    housingNyExtendedAffordabilityOnly := extendedAffordabilityOnly affordableData,
                    dataSource := ''dcp-affordable'',
                    hasAffordableOverlay := True\<rparr>
              in b1\<lparr>buildingType :=
                     classifyBuildingType (totalUnits b1) (affordableUnits b1)
                       (Some (jobType b1)) True (buildingClass b1)\<rparr>)"

text \<open>
  \<^verbatim>\<open>overlayAffordableData\<close> updates every object of the array in place and
  returns the array; the totals it computes afterwards are only logged.
\<close>

definition overlayAffordableData ::
  "'a building_scheme list \<Rightarrow> (string \<rightharpoonup> affordable_data) \<Rightarrow> 'a building_scheme list" where
  "overlayAffordableData dcpBuildings housingNyMap =
     map (overlay_building housingNyMap) dcpBuildings"

section \<open>Deduplicator\<close>

text \<open>
  The \<^verbatim>\<open>Map\<close> from keys to groups keeps its keys in insertion order: an
  association list. \<open>group_push\<close> is
  \<^verbatim>\<open>if (!has(key)) set(key, []); get(key).push(building)\<close>.
\<close>

type_synonym 'a groups = "(string \<times> 'a building_scheme list) list"

definition group_push :: "string \<Rightarrow> 'a building_scheme \<Rightarrow> 'a groups \<Rightarrow> 'a groups" where
  "group_push key b groups =
     (if key \<in> fst ` set groups
      then map (\<lambda>(k, g). if k = key then (k, g @ [b]) else (k, g)) groups
      else groups @ [(key, [b])])"

text \<open>The key \<^verbatim>\<open>`${building.bbl}-${building.completionYear}`\<close>.\<close>

definition dedup_key :: "string \<Rightarrow> int \<Rightarrow> string" where
  "dedup_key b_bbl b_year = b_bbl @ ''-'' @ show_int b_year"

text \<open>
  The first loop: an object without identifier (absent or empty, both falsy) goes
  straight to the output, every other one into the group of its key.
\<close>

fun group_loop ::
  "'a building_scheme list \<Rightarrow> 'a building_scheme list \<Rightarrow> 'a groups
     \<Rightarrow> 'a building_scheme list \<times> 'a groups" where
  "group_loop [] uniqueBuildings duplicateGroups = (uniqueBuildings, duplicateGroups)"
| "group_loop (b # bs) uniqueBuildings duplicateGroups =
     (case bbl b of
        None \<Rightarrow> group_loop bs (uniqueBuildings @ [b]) duplicateGroups
      | Some k \<Rightarrow>
          if k = [] then group_loop bs (uniqueBuildings @ [b]) duplicateGroups
          else group_loop bs uniqueBuildings
                 (group_push (dedup_key k (completionYear b)) b duplicateGroups))"

text \<open>
  The callback of \<^verbatim>\<open>group.reduce\<close>: the better of the best so far and the
  current object. Job numbers are strings and compare by code units.
\<close>

definition pick_best :: "'a building_scheme \<Rightarrow> 'a building_scheme \<Rightarrow> 'a building_scheme" where
  "pick_best best current =
     (if js_gt (totalUnits current) (totalUnits best) then current
      else if js_lt (totalUnits current) (totalUnits best) then best
      else if hasAffordableOverlay current \<and> \<not> hasAffordableOverlay best then current
      else if \<not> hasAffordableOverlay current \<and> hasAffordableOverlay best then best
      else if jobNumber current > jobNumber best then current
      else best)"

text \<open>
  \<^verbatim>\<open>Array.prototype.reduce\<close> without an initial value: a \<^verbatim>\<open>TypeError\<close>
  on the empty array (\<open>None\<close>), the fold from the first element otherwise.
\<close>

fun reduce :: "('a \<Rightarrow> 'a \<Rightarrow> 'a) \<Rightarrow> 'a list \<Rightarrow> 'a option" where
  "reduce f [] = None"
| "reduce f (x # xs) = Some (foldl f x xs)"

text \<open>The second loop, over the entries of the map in insertion order.\<close>

fun process_groups ::
  "'a groups \<Rightarrow> 'a building_scheme list \<Rightarrow> 'a building_scheme list option" where
  "process_groups [] uniqueBuildings = Some uniqueBuildings"
| "process_groups ((key, g) # rest) uniqueBuildings =
     (if length g = 1 then process_groups rest (uniqueBuildings @ [g ! 0])
      else case reduce pick_best g of
        None \<Rightarrow> None
      | Some bestBuilding \<Rightarrow> process_groups rest (uniqueBuildings @ [bestBuilding]))"

text \<open>
  \<^verbatim>\<open>deduplicateBuildings\<close>; the counters and the sample of decisions are only
  logged. \<open>None\<close> stands for the exception of \<^verbatim>\<open>reduce\<close>.
\<close>

definition deduplicateBuildings :: "'a building_scheme list \<Rightarrow> 'a building_scheme list option" where
  "deduplicateBuildings buildings =
     (case group_loop buildings [] [] of
        (uniqueBuildings, duplicateGroups) \<Rightarrow> process_groups duplicateGroups uniqueBuildings)"

subsection \<open>Notions used to state the deduplicator's contract\<close>

text \<open>An identifier is present when \<^verbatim>\<open>!building.bbl\<close> is false.\<close>

definition has_bbl :: "'a building_scheme \<Rightarrow> bool" where
  "has_bbl b = (case bbl b of None \<Rightarrow> False | Some k \<Rightarrow> k \<noteq> [])"

definition key_of :: "'a building_scheme \<Rightarrow> string" where
  "key_of b = (case bbl b of None \<Rightarrow> [] | Some k \<Rightarrow> dedup_key k (completionYear b))"

text \<open>
  The invariant of a construction record on which the deduplicator relies: an identifier
  that is present has ten characters (what \<open>normalizeBBL\<close> returns), and the unit count
  is a number.
\<close>

definition wf_building :: "'a building_scheme \<Rightarrow> bool" where
  "wf_building b =
     ((case bbl b of None \<Rightarrow> True | Some k \<Rightarrow> length k = 10) \<and> totalUnits b \<noteq> NaN)"

text \<open>
  The ordered tie-break, as a preorder: \<open>c\<close> does not beat \<open>w\<close> when it has fewer
  units, or as many and no overlay where \<open>w\<close> has one, or as many units, the same
  overlay status and a job number that is not greater.
\<close>

definition dominated :: "'a building_scheme \<Rightarrow> 'a building_scheme \<Rightarrow> bool" where
  "dominated c w =
     (js_lt (totalUnits c) (totalUnits w)
      \<or> (totalUnits c = totalUnits w
          \<and> ((\<not> hasAffordableOverlay c \<and> hasAffordableOverlay w)
              \<or> (hasAffordableOverlay c = hasAffordableOverlay w
                  \<and> jobNumber c \<le> jobNumber w))))"

definition same_key :: "'a building_scheme \<Rightarrow> 'a building_scheme \<Rightarrow> bool" where
  "same_key x b = (bbl x = bbl b \<and> completionYear x = completionYear b)"

text \<open>
  The state of the first loop after the keyed objects \<open>xs\<close>: the keys are distinct,
  every group is the non-empty list of the objects with its key, in order, and every
  key seen has a group.
\<close>

definition grouped :: "'a groups \<Rightarrow> 'a building_scheme list \<Rightarrow> bool" where
  "grouped g xs =
     (distinct (map fst g)
      \<and> (\<forall>(k, grp) \<in> set g. grp \<noteq> [] \<and> grp = filter (\<lambda>x. key_of x = k) xs)
      \<and> key_of ` set xs \<subseteq> fst ` set g)"

text \<open>The survivor of one entry of the map.\<close>

definition best_of :: "string \<times> 'a building_scheme list \<Rightarrow> 'a building_scheme" where
  "best_of e = foldl pick_best (hd (snd e)) (tl (snd e))"

text \<open>
  A construction record as \<open>process_record\<close> builds it, with the fields that the
  later stages read given and the others at their defaults; used for concrete runs.
\<close>

definition sample_building :: "string \<Rightarrow> string option \<Rightarrow> int \<Rightarrow> real \<Rightarrow> bool \<Rightarrow> building" where
  "sample_building job k year units overlay =
     \<lparr> building_id = job, name = ''Address Not Available, Unknown'', jobNumber = job,
       jobType = ''New Building'', longitude = Fin (- 74), latitude = Fin 40.7,
       address = ''Address Not Available'', borough = ''Unknown'', bbl = k,
       completionYear = year, totalUnits = Fin units,
       affordableUnits = Fin 0, affordablePercentage = Fin 0,
       extremeLowIncomeUnits = Fin 0, veryLowIncomeUnits = Fin 0, lowIncomeUnits = Fin 0,
       moderateIncomeUnits = Fin 0, middleIncomeUnits = Fin 0, otherIncomeUnits = Fin 0,
       studioUnits = Fin 0, oneBrUnits = Fin 0, twoBrUnits = Fin 0, threeBrUnits = Fin 0,
       fourBrUnits = Fin 0, fiveBrUnits = Fin 0, sixBrUnits = Fin 0,
       unknownBrUnits = Fin units,
       buildingType = getPhysicalBuildingType (Fin units) None,
       physicalBuildingType = getPhysicalBuildingType (Fin units) None,
       buildingClass = None,
       dataSource = (if overlay then ''dcp-affordable'' else ''dcp''),
       hasAffordableOverlay = overlay,
       housingNyProjectId = JNull, housingNyProjectName = JNull,
       housingNyConstructionType = JNull, housingNyExtendedAffordabilityOnly = False \<rparr>"

section \<open>Double arithmetic\<close>

text \<open>
  The geometry code computes with doubles, so its arithmetic is modelled as IEEE 754
  binary64: the exact result of an operation on finite values is rounded to the nearest
  number with a 53-bit significand (ties to the even significand), with gradual
  underflow below \<open>2^-1022\<close> and overflow to an infinity from \<open>2^1024\<close>; the
  infinities and \<open>NaN\<close> follow the standard's rules. The sign of a zero is not
  recorded: the code never divides by a zero and never prints one.
\<close>

definition round_even :: "real \<Rightarrow> int" where
  "round_even y =
     (let f = \<lfloor>y\<rfloor>; r = y - of_int f
      in if r < 1 / 2 then f else if 1 / 2 < r then f + 1 else if even f then f else f + 1)"

text \<open>The exponent of the last place of the double nearest to \<open>x\<close>.\<close>

definition ulp_exp :: "real \<Rightarrow> int" where
  "ulp_exp x = max \<lfloor>log 2 \<bar>x\<bar>\<rfloor> (- 1022) - 52"

definition fl :: "real \<Rightarrow> jsnum" where
  "fl x =
     (if x = 0 then Fin 0
      else let e = ulp_exp x;
               y = of_int (round_even (x / 2 powi e)) * 2 powi e
           in if 2 ^ 1024 \<le> y then PosInf
              else if y \<le> - (2 ^ 1024) then NegInf
              else Fin y)"

fun f_neg :: "jsnum \<Rightarrow> jsnum" where
  "f_neg NaN = NaN"
| "f_neg NegInf = PosInf"
| "f_neg PosInf = NegInf"
| "f_neg (Fin x) = Fin (- x)"

fun f_abs :: "jsnum \<Rightarrow> jsnum" where
  "f_abs NaN = NaN"
| "f_abs NegInf = PosInf"
| "f_abs PosInf = PosInf"
| "f_abs (Fin x) = Fin \<bar>x\<bar>"

fun f_add :: "jsnum \<Rightarrow> jsnum \<Rightarrow> jsnum" where
  "f_add NaN _ = NaN"
| "f_add _ NaN = NaN"
| "f_add PosInf NegInf = NaN"
| "f_add NegInf PosInf = NaN"
| "f_add PosInf _ = PosInf"
| "f_add _ PosInf = PosInf"
| "f_add NegInf _ = NegInf"
| "f_add _ NegInf = NegInf"
| "f_add (Fin x) (Fin y) = fl (x + y)"

definition f_sub :: "jsnum \<Rightarrow> jsnum \<Rightarrow> jsnum" where
  "f_sub a b = f_add a (f_neg b)"

text \<open>The sign of a value that is not \<open>NaN\<close>: true when it is negative.\<close>

fun negative :: "jsnum \<Rightarrow> bool" where
  "negative NegInf = True"
| "negative (Fin x) = (x < 0)"
| "negative _ = False"

definition infinity :: "bool \<Rightarrow> jsnum" where
  "infinity neg = (if neg then NegInf else PosInf)"

fun f_mul :: "jsnum \<Rightarrow> jsnum \<Rightarrow> jsnum" where
  "f_mul NaN _ = NaN"
| "f_mul _ NaN = NaN"
| "f_mul (Fin x) (Fin y) = fl (x * y)"
| "f_mul a b =
     (if a = Fin 0 \<or> b = Fin 0 then NaN else infinity (negative a \<noteq> negative b))"

fun f_div :: "jsnum \<Rightarrow> jsnum \<Rightarrow> jsnum" where
  "f_div NaN _ = NaN"
| "f_div _ NaN = NaN"
| "f_div (Fin x) (Fin y) =
     (if y = 0 then (if x = 0 then NaN else infinity (x < 0)) else fl (x / y))"
| "f_div (Fin x) b = Fin 0"
| "f_div a (Fin y) = infinity (negative a \<noteq> (y < 0))"
| "f_div a b = NaN"

fun f_sqrt :: "jsnum \<Rightarrow> jsnum" where
  "f_sqrt NaN = NaN"
| "f_sqrt NegInf = NaN"
| "f_sqrt PosInf = PosInf"
| "f_sqrt (Fin x) = (if x < 0 then NaN else fl (sqrt x))"

section \<open>Geometry simplifier\<close>

text \<open>
  A point is a pair of coordinates; the coordinates of a ring and the tolerance are
  finite doubles, given as the real numbers they denote.
\<close>

type_synonym point = "real \<times> real"

text \<open>
  \<^verbatim>\<open>lineLength\<close>, the computed distance between the first and the last point, and the
  computed distance of the point at index \<open>i\<close> from the line through them, each
  operation rounded in the order in which the source evaluates it. \<^verbatim>\<open>d ** 2\<close> is
  taken as the rounded product of \<open>d\<close> with itself (the language leaves the accuracy of
  \<^verbatim>\<open>**\<close> to the implementation).
\<close>

definition lineLength :: "point list \<Rightarrow> jsnum" where
  "lineLength points =
     (case (points ! 0, points ! (length points - 1)) of
        ((x1, y1), (x2, y2)) \<Rightarrow>
          let dy = f_sub (Fin y2) (Fin y1); dx = f_sub (Fin x2) (Fin x1)
          in f_sqrt (f_add (f_mul dy dy) (f_mul dx dx)))"

definition dist_at :: "point list \<Rightarrow> nat \<Rightarrow> jsnum" where
  "dist_at points i =
     (case (points ! 0, points ! (length points - 1), points ! i) of
        ((x1, y1), (x2, y2), (x0, y0)) \<Rightarrow>
          f_div
            (f_abs
              (f_sub
                (f_add
                  (f_sub (f_mul (f_sub (Fin y2) (Fin y1)) (Fin x0))
                         (f_mul (f_sub (Fin x2) (Fin x1)) (Fin y0)))
                  (f_mul (Fin x2) (Fin y1)))
                (f_mul (Fin y2) (Fin x1))))
            (lineLength points))"

text \<open>
  The loop \<^verbatim>\<open>for (let i = 1; i < points.length - 1; i++)\<close> with its state
  \<^verbatim>\<open>(maxDist, maxIndex)\<close>, which starts at \<open>(0, 0)\<close>.
\<close>

definition farthest_step :: "point list \<Rightarrow> jsnum \<times> nat \<Rightarrow> nat \<Rightarrow> jsnum \<times> nat" where
  "farthest_step points s i =
     (case s of (maxDist, maxIndex) \<Rightarrow>
        let dist = dist_at points i
        in if js_gt dist maxDist then (dist, i) else (maxDist, maxIndex))"

definition farthest :: "point list \<Rightarrow> jsnum \<times> nat" where
  "farthest points = foldl (farthest_step points) (Fin 0, 0) [1 ..< length points - 1]"

text \<open>
  \<^verbatim>\<open>simplifyLine(points, tolerance)\<close>. The recursion is not structural and the
  source has no guard on the split index, so the function is defined as a partial
  function: \<open>None\<close> is a call that does not return, because its recursion never ends
  (the JavaScript call stack overflows).
\<close>

partial_function (option) simplifyLine :: "point list \<Rightarrow> real \<Rightarrow> point list option" where
  "simplifyLine points tolerance =
     (if length points \<le> 2 then Some points
      else if lineLength points = Fin 0 then Some [points ! 0]
      else if js_gt (fst (farthest points)) (Fin tolerance) then
        Option.bind (simplifyLine (take (snd (farthest points) + 1) points) tolerance)
          (\<lambda>left. Option.bind (simplifyLine (drop (snd (farthest points)) points) tolerance)
             (\<lambda>right. Some (butlast left @ right)))
      else Some [points ! 0, points ! (length points - 1)])"




section \<open>Change detector\<close>

subsection \<open>Serialisation\<close>

text \<open>
  A record handed to the change detector, or a row returned by the store, is a flat
  object: its fields in the object's own order. \<^verbatim>\<open>JSON.stringify\<close> quotes a
  string and escapes the quote, the backslash and the control characters in it, writes
  an integer in decimal and leaves out a field whose value is undefined.
\<close>

type_synonym row = "(string \<times> jsval) list"

definition hex_digit :: "nat \<Rightarrow> char" where
  "hex_digit n = ''0123456789abcdef'' ! n"

fun show_hex :: "nat \<Rightarrow> string" where
  "show_hex n = (if n < 16 then [hex_digit n] else show_hex (n div 16) @ [hex_digit (n mod 16)])"

declare show_hex.simps [simp del]

definition json_escape :: "char \<Rightarrow> string" where
  "json_escape c =
     (if c = CHR 0x22 then [CHR 0x5C, CHR 0x22]
      else if c = CHR 0x5C then [CHR 0x5C, CHR 0x5C]
      else if c = CHR 0x08 then [CHR 0x5C, CHR ''b'']
      else if c = CHR 0x0C then [CHR 0x5C, CHR ''f'']
      else if c = CHR 0x0A then [CHR 0x5C, CHR ''n'']
      else if c = CHR 0x0D then [CHR 0x5C, CHR ''r'']
      else if c = CHR 0x09 then [CHR 0x5C, CHR ''t'']
      else if (of_char c :: nat) < 32
        then [CHR 0x5C, CHR ''u'', CHR ''0'', CHR ''0'',
              hex_digit (of_char c div 16), hex_digit (of_char c mod 16)]
      else [c])"

definition json_quote :: "string \<Rightarrow> string" where
  "json_quote s = [CHR 0x22] @ concat (map json_escape s) @ [CHR 0x22]"

fun json_value :: "jsval \<Rightarrow> string option" where
  "json_value JNull = Some ''null''"
| "json_value JUndefined = None"
| "json_value (JBool b) = Some (if b then ''true'' else ''false'')"
| "json_value (JInt i) = Some (show_int i)"
| "json_value (JStr s) = Some (json_quote s)"

fun join :: "string \<Rightarrow> string list \<Rightarrow> string" where
  "join sep [] = []"
| "join sep [x] = x"
| "join sep (x # y # ys) = x @ sep @ join sep (y # ys)"

definition JSON_stringify :: "row \<Rightarrow> string" where
  "JSON_stringify r =
     ''{'' @ join '','' (List.map_filter
        (\<lambda>(k, v). case json_value v of
                     None \<Rightarrow> None
                   | Some t \<Rightarrow> Some (json_quote k @ '':'' @ t)) r) @ ''}''"

subsection \<open>The content fingerprint\<close>

text \<open>
  The remainder \<open>idx % m\<close> of two counts: \<open>NaN\<close> when \<open>m\<close> is zero; nothing is
  raised.
\<close>

definition js_rem :: "nat \<Rightarrow> nat \<Rightarrow> jsnum" where
  "js_rem idx m = (if m = 0 then NaN else Fin (real (idx mod m)))"

text \<open>
  \<^verbatim>\<open>records.filter((_, idx) => idx % Math.floor(records.length / 5) === 0)
  .slice(0, 5)\<close>
\<close>

definition samples :: "'a list \<Rightarrow> 'a list" where
  "samples records =
     take 5 (map snd (filter (\<lambda>(idx, r). js_rem idx (length records div 5) = Fin 0)
                        (enumerate 0 records)))"

text \<open>
  The text that is hashed: \<^verbatim>\<open>JSON.stringify(summary)\<close> for the object with the
  fields \<^verbatim>\<open>count\<close>, \<^verbatim>\<open>first\<close>, \<^verbatim>\<open>last\<close> and
  \<^verbatim>\<open>samples\<close>, the last three holding serialised records, that is strings.
\<close>

definition summary :: "row list \<Rightarrow> string" where
  "summary records =
     ''{'' @ json_quote ''count'' @ '':'' @ show_nat (length records)
     @ '','' @ json_quote ''first'' @ '':'' @ json_quote (JSON_stringify (records ! 0))
     @ '','' @ json_quote ''last'' @ '':''
     @ json_quote (JSON_stringify (records ! (length records - 1)))
     @ '','' @ json_quote ''samples'' @ '':[''
     @ join '','' (map (\<lambda>r. json_quote (JSON_stringify r)) (samples records))
     @ '']}''"

text \<open>
  The loop over the characters. \<^verbatim>\<open>hash ^= c\<close> takes the number modulo
  \<open>2^32\<close>; the sum of the shifted values that follows is exact in a double (it stays
  below \<open>2^35\<close>) and is taken modulo \<open>2^32\<close> by the next \<^verbatim>\<open>^=\<close> or by the
  final \<^verbatim>\<open>>>> 0\<close>, so the loop computes in 32-bit words.
\<close>

definition hash_step :: "32 word \<Rightarrow> char \<Rightarrow> 32 word" where
  "hash_step hash c =
     (let h = hash XOR of_char c
      in h + (push_bit 1 h + push_bit 4 h + push_bit 7 h + push_bit 8 h + push_bit 24 h))"

definition hash_string :: "string \<Rightarrow> string" where
  "hash_string str = show_hex (unat (foldl hash_step 2166136261 str))"

definition calculateDataHash :: "row list \<Rightarrow> string" where
  "calculateDataHash records =
     (if length records = 0 then ''empty'' else hash_string (summary records))"

text \<open>
  The positions of the records that enter the summary: the first, the last and the
  sampled ones. \<open>sample_indices\<close> is the filter of \<open>samples\<close> on the indices alone.
\<close>

definition sample_indices :: "nat \<Rightarrow> nat list" where
  "sample_indices n = take 5 (filter (\<lambda>idx. js_rem idx (n div 5) = Fin 0) [0 ..< n])"


subsection \<open>The comparison with the store\<close>

text \<open>
  The store is the object \<^verbatim>\<open>db\<close>; the code calls \<^verbatim>\<open>db.execute\<close> with the
  text of a query. The call fails with an error, whose message is kept, or answers with
  the driver's result, which comes in two shapes. A result of node-postgres is an object
  whose property \<^verbatim>\<open>rows\<close> holds the array of rows. A result of postgres-js, the
  driver that \<^verbatim>\<open>initDb\<close> of this repository sets up, is the array of rows itself
  and has no property \<^verbatim>\<open>rows\<close>. The rows are whatever the store returns: objects
  keyed by the names of the columns.
\<close>

datatype query_result = Rows "row list" | Array "row list"

record db =
  execute :: "string \<Rightarrow> string + query_result"

definition count_sql :: "string \<Rightarrow> string" where
  "count_sql tableName = ''SELECT COUNT(*) as count FROM '' @ tableName"

definition sample_sql :: "string \<Rightarrow> string" where
  "sample_sql tableName = ''SELECT * FROM '' @ tableName @ '' ORDER BY id LIMIT 1000''"

text \<open>The property \<open>k\<close> of a row: \<open>undefined\<close> when the row has none.\<close>

definition property :: "row \<Rightarrow> string \<Rightarrow> jsval" where
  "property r k = (case map_of r k of None \<Rightarrow> JUndefined | Some v \<Rightarrow> v)"

text \<open>
  \<^verbatim>\<open>parseInt(v, 10)\<close>: the text of the value without its leading white space, an
  optional sign, and the longest run of decimal digits that follows; \<open>NaN\<close> (\<open>None\<close>)
  when there is no digit. The result is kept as the integer that the digits denote; the
  code holds the double nearest to it, which is the same number below \<open>2^53\<close>.
\<close>

definition digits_value :: "string \<Rightarrow> nat" where
  "digits_value ds = foldl (\<lambda>n c. 10 * n + (of_char c - 48)) 0 ds"

definition parseInt :: "jsval \<Rightarrow> int option" where
  "parseInt v =
     (let t = dropWhile is_space (String v);
          neg = (t \<noteq> [] \<and> hd t = CHR ''-'');
          u = (if t \<noteq> [] \<and> (hd t = CHR ''-'' \<or> hd t = CHR ''+'') then tl t else t);
          ds = takeWhile is_digit u
      in if ds = [] then None
         else Some (if neg then - int (digits_value ds) else int (digits_value ds)))"

text \<open>
  \<^verbatim>\<open>result.rows[0]?.count || result[0]?.count || 0\<close> for a result with the
  property \<^verbatim>\<open>rows\<close>: such an object has no property \<^verbatim>\<open>0\<close>, so the second
  operand is \<open>undefined\<close>.
\<close>

definition count_value :: "row list \<Rightarrow> jsval" where
  "count_value rows =
     (let c = (case rows of [] \<Rightarrow> JUndefined | r # rs \<Rightarrow> property r ''count'')
      in if truthy c then c else JInt 0)"

text \<open>
  The line that reads the count. The index \<^verbatim>\<open>[0]\<close> on \<^verbatim>\<open>result.rows\<close> is
  not guarded: for a result that is an array \<^verbatim>\<open>result.rows\<close> is \<open>undefined\<close> and
  the line raises a \<^verbatim>\<open>TypeError\<close>, whatever the rows are.
\<close>

definition read_count :: "query_result \<Rightarrow> string + int option" where
  "read_count result =
     (case result of
        Array rows \<Rightarrow> Inl (''Cannot read properties of undefined (reading '' @ [CHR 0x27]
                           @ ''0'' @ [CHR 0x27] @ '')'')
      | Rows rows \<Rightarrow> Inr (parseInt (count_value rows)))"

text \<open>
  \<^verbatim>\<open>existingRecords.rows || existingRecords || []\<close>: the rows of either shape (an
  array is truthy also when it is empty).
\<close>

fun rows_of :: "query_result \<Rightarrow> row list" where
  "rows_of (Rows rows) = rows"
| "rows_of (Array rows) = rows"

text \<open>
  The two places where the code asks the store: the count query with the line that reads
  its result, and the query for the first thousand rows. \<open>Inl\<close> is the message of what
  is thrown there.
\<close>

definition count_query :: "db \<Rightarrow> string \<Rightarrow> string + int option" where
  "count_query d tableName =
     (case execute d (count_sql tableName) of
        Inl e \<Rightarrow> Inl e
      | Inr result \<Rightarrow> read_count result)"

definition sample_query :: "db \<Rightarrow> string \<Rightarrow> string + row list" where
  "sample_query d tableName =
     (case execute d (sample_sql tableName) of
        Inl e \<Rightarrow> Inl e
      | Inr existingRecords \<Rightarrow> Inr (rows_of existingRecords))"

record options =
  hashData :: bool
  logDetails :: bool

datatype stats =
    NoStats
  | CountStats "int option" nat int
  | HashStats "int option" nat string string
  | SameStats "int option" nat

record verdict =
  hasChanges :: bool
  reason :: string
  error :: "string option"
  stats :: stats

text \<open>
  The body of the \<^verbatim>\<open>try\<close> block of \<^verbatim>\<open>detectDataChanges\<close>: \<open>Inl\<close> is an
  error thrown inside it, \<open>Inr\<close> the object returned. \<open>compare_content\<close> is the part
  after the comparison of the counts; it is reached when the counts are equal and when
  the current count is \<open>NaN\<close>, for which \<^verbatim>\<open>Math.abs(currentCount - newCount) > 0\<close>
  is false.
\<close>

definition compare_content ::
  "db \<Rightarrow> string \<Rightarrow> row list \<Rightarrow> options \<Rightarrow> int option \<Rightarrow> nat \<Rightarrow> string + verdict" where
  "compare_content d tableName newRecords opts currentCount newCount =
     (if hashData opts then
        (case sample_query d tableName of
           Inl e \<Rightarrow> Inl e
         | Inr existingRecords \<Rightarrow>
             let existingHash = calculateDataHash existingRecords;
                 newHash = calculateDataHash (take 1000 newRecords)
             in if existingHash \<noteq> newHash
                then Inr \<lparr> hasChanges = True,
                           reason = ''Data content has changed (hash mismatch)'',
                           error = None,
                           stats = HashStats currentCount newCount existingHash newHash \<rparr>
                else Inr \<lparr> hasChanges = False,
                           reason = ''Data is identical to existing records'',
                           error = None,
                           stats = SameStats currentCount newCount \<rparr>)
      else Inr \<lparr> hasChanges = False,
                 reason = ''Data is identical to existing records'',
                 error = None,
                 stats = SameStats currentCount newCount \<rparr>)"

definition detect_body :: "db \<Rightarrow> string \<Rightarrow> row list \<Rightarrow> options \<Rightarrow> string + verdict" where
  "detect_body d tableName newRecords opts =
     (case count_query d tableName of
        Inl e \<Rightarrow> Inl e
      | Inr currentCount \<Rightarrow>
          let newCount = length newRecords in
          case currentCount of
            None \<Rightarrow> compare_content d tableName newRecords opts currentCount newCount
          | Some c \<Rightarrow>
              if \<bar>c - int newCount\<bar> > 0
              then Inr \<lparr> hasChanges = True,
                         reason = (if c = 0
                                   then ''Table is empty - initial seed required''
                                   else ''Record count changed ('' @ show_int c
                                        @ [CHR '' '', CHR 0xE2, CHR 0x86, CHR 0x92, CHR '' '']
                                        @ show_nat newCount @ '')''),
                         error = None,
                         stats = CountStats currentCount newCount (int newCount - c) \<rparr>
              else compare_content d tableName newRecords opts currentCount newCount)"

text \<open>\<^verbatim>\<open>detectDataChanges\<close>: the body, and the \<^verbatim>\<open>catch\<close> block around it.\<close>

definition detectDataChanges :: "db \<Rightarrow> string \<Rightarrow> row list \<Rightarrow> options \<Rightarrow> verdict" where
  "detectDataChanges d tableName newRecords opts =
     (case detect_body d tableName newRecords opts of
        Inl e \<Rightarrow> \<lparr> hasChanges = True,
                   reason = ''Change detection failed - proceeding with update'',
                   error = Some e,
                   stats = NoStats \<rparr>
      | Inr v \<Rightarrow> v)"

text \<open>The options when the caller passes none.\<close>

definition default_options :: options where
  "default_options = \<lparr> hashData = True, logDetails = True \<rparr>"

text \<open>
  Stores and rows used for concrete runs: a store that cannot be reached, and a table
  \<open>t\<close> holding \<open>rows\<close> behind either driver. \<^verbatim>\<open>COUNT(*)\<close> is a
  \<^verbatim>\<open>bigint\<close>, which both drivers hand over as text.
\<close>

definition failing_db :: db where
  "failing_db = \<lparr> execute = (\<lambda>q. Inl ''connection refused'') \<rparr>"

definition table_answer :: "string \<Rightarrow> row list \<Rightarrow> string \<Rightarrow> string + row list" where
  "table_answer t rows q =
     (if q = count_sql t then Inr [[(''count'', JStr (show_nat (length rows)))]]
      else if q = sample_sql t then Inr (take 1000 rows)
      else Inl ''syntax error'')"


definition array_store :: "string \<Rightarrow> row list \<Rightarrow> db" where
  "array_store t rows = \<lparr> execute = (\<lambda>q. map_sum id Array (table_answer t rows q)) \<rparr>"

definition unit_row :: "string \<Rightarrow> int \<Rightarrow> row" where
  "unit_row job units = [(''id'', JStr job), (''totalUnits'', JInt units)]"

text \<open>A row of a table whose columns are \<open>id\<close> and \<open>units\<close>.\<close>

definition units_row :: "string \<Rightarrow> int \<Rightarrow> row" where
  "units_row ident units = [(''id'', JStr ident), (''units'', JInt units)]"


section \<open>Properties of the identifier normalizer\<close>

lemma String_falsy_digits:
  assumes "\<not> truthy v"
  shows "length (filter is_digit (String v)) \<le> 1"
proof (cases v)
  case (JInt i)
  with assms have "i = 0" by simp
  then have "String v = ''0''"
    using JInt by (simp add: show_int_def show_nat.simps [of 0] digit_char_def)
  then show ?thesis by simp
qed (use assms in \<open>auto simp: is_digit_def\<close>)

text \<open>
  C8. Property-identifier normalization removes every non-digit character of the value's
  text; a ten-digit result is returned as it is, a nine-digit result gets one leading
  zero, every other length is absent. So an identifier that is present has exactly ten
  characters, all of them digits.
\<close>

theorem normalizeBBL_spec:
  "normalizeBBL v =
     (let d = filter is_digit (String v)
      in if length d = 10 then Some d
         else if length d = 9 then Some (CHR ''0'' # d)
         else None)
   \<and> (\<forall>s. normalizeBBL v = Some s \<longrightarrow> length s = 10 \<and> (\<forall>c \<in> set s. is_digit c))"
proof -
  let ?d = "filter is_digit (String v)"
  have falsy: "\<not> truthy v \<Longrightarrow> length ?d \<noteq> 10 \<and> length ?d \<noteq> 9"
    using String_falsy_digits [of v] by simp
  have zero: "is_digit CHR ''0''" by (simp add: is_digit_def)
  have digs: "\<forall>c \<in> set ?d. is_digit c" by simp
  have eq: "normalizeBBL v = (if length ?d = 10 then Some ?d
         else if length ?d = 9 then Some (CHR ''0'' # ?d) else None)"
    using falsy by (simp add: normalizeBBL_def Let_def)
  have len: "length s = 10 \<and> (\<forall>c \<in> set s. is_digit c)" if a: "normalizeBBL v = Some s" for s
  proof (cases "length ?d = 10")
    case True
    with a eq have "s = ?d" by simp
    with True show ?thesis by simp
  next
    case False
    show ?thesis
    proof (cases "length ?d = 9")
      case True
      with False a eq have "s = CHR ''0'' # ?d" by simp
      with True zero show ?thesis by simp
    next
      case n9: False
      with False a eq show ?thesis by simp
    qed
  qed
  show ?thesis
  proof (intro conjI allI impI)
    show "normalizeBBL v = (let d = ?d in if length d = 10 then Some d
         else if length d = 9 then Some (CHR ''0'' # d) else None)"
      unfolding Let_def by (rule eq)
  qed (use len in blast)+
qed

lemma show_nat_100012345: "show_nat 100012345 = ''100012345''"
  by (simp add: show_nat.simps digit_char_def)

theorem normalizeBBL_spec_witness:
  "normalizeBBL (JStr ''1-00012-3456'') = Some ''1000123456''
   \<and> normalizeBBL (JInt 100012345) = Some ''0100012345''
   \<and> normalizeBBL (JStr ''12345'') = None
   \<and> length ''0100012345'' = 10 \<and> list_all is_digit ''0100012345''"
proof -
  have a: "normalizeBBL (JStr ''1-00012-3456'') = Some ''1000123456''"
    by (simp add: normalizeBBL_def is_digit_def)
  have b: "normalizeBBL (JInt 100012345) = Some ''0100012345''"
    by (simp add: normalizeBBL_def show_int_def show_nat_100012345 is_digit_def)
  have c: "normalizeBBL (JStr ''12345'') = None"
    by (simp add: normalizeBBL_def is_digit_def)
  have "\<forall>s. normalizeBBL (JInt 100012345) = Some s \<longrightarrow>
          length s = 10 \<and> (\<forall>c \<in> set s. is_digit c)"
    using normalizeBBL_spec [of "JInt 100012345"] by (rule conjunct2)
  then have "normalizeBBL (JInt 100012345) = Some ''0100012345'' \<longrightarrow>
          length ''0100012345'' = 10 \<and> (\<forall>c \<in> set ''0100012345''. is_digit c)"
    by (rule spec)
  then have "length ''0100012345'' = 10 \<and> (\<forall>c \<in> set ''0100012345''. is_digit c)"
    using b by (rule mp)
  then have d: "length ''0100012345'' = 10 \<and> list_all is_digit ''0100012345''"
    unfolding list_all_iff .
  show ?thesis by (rule conjI [OF a conjI [OF b conjI [OF c d]]])
qed

section \<open>Properties of the classifier\<close>

text \<open>
  C2 as stated fails at its first input: a unit count of zero is at most two, so the
  physical classifier answers \<open>one-two-family\<close>, not \<open>unknown\<close>.
\<close>

theorem classify_zero_units_counterexample:
  "classifyBuildingType (Fin 0) (Fin 0) (Some ''New Building'') False None \<noteq> ''unknown''"
  by (simp add: classifyBuildingType_def getPhysicalBuildingType_def js_gt_def js_ge_def js_le_def)

text \<open>
  C2, amended. The classifier is a function of its five arguments. With unit count 0, no
  overlay, job type "New Building" and no class code it returns \<open>one-two-family\<close>;
  with unit count 120, no overlay, job type "New Building" and no class code it returns
  \<open>multifamily-elevator\<close>; with an overlay and five affordable units it returns
  \<open>affordable\<close> for every unit count, job type and class code.
\<close>

theorem classifyBuildingType_cases:
  "classifyBuildingType (Fin 0) a (Some ''New Building'') False None = ''one-two-family''
   \<and> classifyBuildingType (Fin 120) a (Some ''New Building'') False None = ''multifamily-elevator''
   \<and> classifyBuildingType u (Fin 5) j True c = ''affordable''"
  by (simp add: classifyBuildingType_def getPhysicalBuildingType_def js_gt_def js_ge_def js_le_def)

section \<open>Properties of the record normalizer\<close>

lemma process_record_invalid_coordinates:
  assumes "Latitude r = NaN \<or> Longitude r = NaN \<or> Latitude r = Fin 0 \<or> Longitude r = Fin 0"
  shows "process_record r = None"
  using assms by (auto simp: process_record_def isNaN_def Let_def)

lemma processDCPHousing_loop_eq:
  "processDCPHousing_loop rs bs k =
     (bs @ List.map_filter process_record rs,
      k + length (filter (\<lambda>r. process_record r = None) rs))"
  by (induction rs arbitrary: bs k) (auto simp: List.map_filter_simps split: option.splits)

lemma processDCPHousing_drops_invalid_coordinates:
  assumes "Latitude r = NaN \<or> Longitude r = NaN \<or> Latitude r = Fin 0 \<or> Longitude r = Fin 0"
  shows "processDCPHousing (rs @ r # rs') =
           (fst (processDCPHousing (rs @ rs')), snd (processDCPHousing (rs @ rs')) + 1)"
  using process_record_invalid_coordinates [OF assms]
  by (simp add: processDCPHousing_def processDCPHousing_loop_eq List.map_filter_def)

text \<open>
  C7 at the failing input. A record whose latitude parses to \<open>Infinity\<close> does not
  parse as a finite number, but \<^verbatim>\<open>isNaN\<close> is false for it and it is not zero:
  the record is not skipped, it reaches the output with an infinite latitude.
\<close>

theorem processDCPHousing_keeps_infinite_latitude:
  "map latitude (fst (processDCPHousing [sample_record PosInf (Fin (- 73.9))])) = [PosInf]
   \<and> snd (processDCPHousing [sample_record PosInf (Fin (- 73.9))]) = 0"
proof -
  have "\<exists>b. process_record (sample_record PosInf (Fin (- 73.9))) = Some b \<and> latitude b = PosInf"
    by (simp add: process_record_def isNaN_def Let_def or_zero_def js_le_def
          sample_record_def)
  then show ?thesis
    by (auto simp: processDCPHousing_def)
qed

section \<open>Properties of the overlay merger\<close>

lemma overlay_building_bbl [simp]: "bbl (overlay_building m b) = bbl b"
  by (simp add: overlay_building_def Let_def split: option.split)

lemma overlay_building_idem:
  "overlay_building m (overlay_building m b) = overlay_building m b"
proof (cases "bbl b")
  case None
  then show ?thesis by (simp add: overlay_building_def)
next
  case (Some k)
  show ?thesis
  proof (cases "k = [] \<or> m k = None")
    case True
    with Some show ?thesis by (auto simp: overlay_building_def)
  next
    case False
    then obtain a where a: "m k = Some a" and k: "k \<noteq> []" by auto
    show ?thesis
      unfolding overlay_building_def [of m "overlay_building m b"]
      unfolding overlay_building_bbl Some
      using k a Some by (simp add: overlay_building_def Let_def)
  qed
qed

text \<open>
  C3. The overlay merger is idempotent: for every list of construction records and every
  overlay mapping, merging the same mapping a second time onto the merged records leaves
  every field of every record as the first merge left it.
\<close>

theorem overlayAffordableData_idempotent:
  "overlayAffordableData (overlayAffordableData dcpBuildings housingNyMap) housingNyMap
     = overlayAffordableData dcpBuildings housingNyMap"
  by (simp add: overlayAffordableData_def overlay_building_idem)

section \<open>Properties of the deduplicator\<close>

lemma digit_char_inj: "n < 10 \<Longrightarrow> m < 10 \<Longrightarrow> digit_char n = digit_char m \<Longrightarrow> n = m"
proof -
  assume n: "n < 10" and m: "m < 10" and e: "digit_char n = digit_char m"
  have d: "distinct ''0123456789''" by simp
  have l: "length ''0123456789'' = 10" by simp
  from e have "''0123456789'' ! n = ''0123456789'' ! m" by (simp add: digit_char_def)
  with d n m l show "n = m" by (metis nth_eq_iff_index_eq)
qed

lemma digit_char_not_minus: "n < 10 \<Longrightarrow> digit_char n \<noteq> CHR ''-''"
proof -
  assume "n < 10"
  then have "digit_char n \<in> set ''0123456789''"
    unfolding digit_char_def by (intro nth_mem) simp
  then show ?thesis by auto
qed

lemma show_nat_nonempty: "show_nat n \<noteq> []"
  by (subst show_nat.simps) simp

lemma show_nat_no_minus: "CHR ''-'' \<notin> set (show_nat n)"
proof (induction n rule: show_nat.induct)
  case (1 n)
  show ?case
  proof (cases "n < 10")
    case True
    then show ?thesis
      using digit_char_not_minus [of n] by (subst show_nat.simps) auto
  next
    case False
    then have "n mod 10 < 10" by simp
    with False 1 show ?thesis
      using digit_char_not_minus [of "n mod 10"] by (subst show_nat.simps) auto
  qed
qed

lemma show_nat_inj: "show_nat n = show_nat m \<Longrightarrow> n = m"
proof (induction n arbitrary: m rule: show_nat.induct)
  case (1 n)
  have sn: "show_nat n = (if n < 10 then [digit_char n]
              else show_nat (n div 10) @ [digit_char (n mod 10)])"
    by (rule show_nat.simps)
  have sm: "show_nat m = (if m < 10 then [digit_char m]
              else show_nat (m div 10) @ [digit_char (m mod 10)])"
    by (rule show_nat.simps)
  show ?case
  proof (cases "n < 10")
    case n: True
    show ?thesis
    proof (cases "m < 10")
      case True
      with n 1(2) sn sm show ?thesis by (simp add: digit_char_inj)
    next
      case False
      with n 1(2) sn sm have "[digit_char n] = show_nat (m div 10) @ [digit_char (m mod 10)]"
        by simp
      then have "show_nat (m div 10) = []" by simp
      then show ?thesis by (simp add: show_nat_nonempty)
    qed
  next
    case n: False
    show ?thesis
    proof (cases "m < 10")
      case True
      with n 1(2) sn sm have "show_nat (n div 10) @ [digit_char (n mod 10)] = [digit_char m]"
        by simp
      then show ?thesis by (simp add: show_nat_nonempty)
    next
      case False
      with n 1(2) sn sm have e: "show_nat (n div 10) = show_nat (m div 10)"
        and d: "digit_char (n mod 10) = digit_char (m mod 10)" by simp_all
      from 1(1) [OF n e] have q: "n div 10 = m div 10" .
      from d have r: "n mod 10 = m mod 10" by (intro digit_char_inj) simp_all
      from q r show ?thesis by (metis div_mult_mod_eq)
    qed
  qed
qed

lemma show_int_inj: "show_int i = show_int j \<Longrightarrow> i = j"
proof -
  assume e: "show_int i = show_int j"
  have hd_nat: "hd (show_nat n) \<noteq> CHR ''-''" for n
    using show_nat_no_minus [of n] show_nat_nonempty [of n] by (metis hd_in_set)
  have cons: "show_nat n \<noteq> CHR ''-'' # xs" for n xs
    using hd_nat [of n] by (metis list.sel(1))
  show "i = j"
  proof (cases "i < 0")
    case i: True
    show ?thesis
    proof (cases "j < 0")
      case True
      with i e have "show_nat (nat (- i)) = show_nat (nat (- j))" by (simp add: show_int_def)
      then have "nat (- i) = nat (- j)" by (rule show_nat_inj)
      with i True show ?thesis by simp
    next
      case False
      with i e cons [of "nat j"] show ?thesis by (simp add: show_int_def) metis
    qed
  next
    case i: False
    show ?thesis
    proof (cases "j < 0")
      case True
      with i e cons [of "nat i"] show ?thesis by (simp add: show_int_def)
    next
      case False
      with i e have "show_nat (nat i) = show_nat (nat j)" by (simp add: show_int_def)
      then have "nat i = nat j" by (rule show_nat_inj)
      with i False show ?thesis by simp
    qed
  qed
qed

lemma dedup_key_inj:
  "length k = length k' \<Longrightarrow> dedup_key k y = dedup_key k' y' \<Longrightarrow> k = k' \<and> y = y'"
  by (auto simp: dedup_key_def dest: show_int_inj)

subsection \<open>The tie-break order\<close>

lemma js_lt_irrefl: "\<not> js_lt a a"
  by (cases a) auto

lemma js_lt_trans: "js_lt a b \<Longrightarrow> js_lt b c \<Longrightarrow> js_lt a c"
  by (cases a; cases b; cases c) auto

lemma js_lt_total: "a \<noteq> NaN \<Longrightarrow> b \<noteq> NaN \<Longrightarrow> js_lt a b \<or> a = b \<or> js_lt b a"
  by (cases a; cases b) auto

lemma dominated_refl: "dominated c c"
  by (simp add: dominated_def)

lemma dominated_trans: "dominated a b \<Longrightarrow> dominated b c \<Longrightarrow> dominated a c"
  unfolding dominated_def
  by (elim disjE conjE) (auto intro: js_lt_trans)

lemma pick_best_cases: "pick_best b c = b \<or> pick_best b c = c"
  by (simp add: pick_best_def)

lemma pick_best_dominates:
  assumes "totalUnits b \<noteq> NaN" and "totalUnits c \<noteq> NaN"
  shows "dominated b (pick_best b c) \<and> dominated c (pick_best b c)"
proof -
  consider (lt) "js_lt (totalUnits b) (totalUnits c)"
    | (eq) "totalUnits b = totalUnits c"
    | (gt) "js_lt (totalUnits c) (totalUnits b)"
    using js_lt_total [OF assms] by blast
  then show ?thesis
  proof cases
    case lt
    then have "pick_best b c = c" by (simp add: pick_best_def js_gt_def)
    with lt show ?thesis by (simp add: dominated_def)
  next
    case eq
    then have nlt: "\<not> js_lt (totalUnits c) (totalUnits b)" "\<not> js_lt (totalUnits b) (totalUnits c)"
      by (simp_all add: js_lt_irrefl)
    show ?thesis
      using eq nlt by (auto simp: pick_best_def js_gt_def dominated_def)
  next
    case gt
    then have "\<not> js_lt (totalUnits b) (totalUnits c)"
      using js_lt_trans js_lt_irrefl by blast
    with gt have "pick_best b c = b" by (simp add: pick_best_def js_gt_def)
    with gt show ?thesis by (simp add: dominated_def)
  qed
qed

lemma foldl_pick_best:
  assumes "\<forall>c \<in> set (x # xs). totalUnits c \<noteq> NaN"
  shows "foldl pick_best x xs \<in> set (x # xs)
         \<and> (\<forall>c \<in> set (x # xs). dominated c (foldl pick_best x xs))"
  using assms
proof (induction xs arbitrary: x)
  case Nil
  then show ?case by (simp add: dominated_refl)
next
  case (Cons y ys)
  let ?p = "pick_best x y"
  have p: "?p = x \<or> ?p = y" by (rule pick_best_cases)
  have nan: "\<forall>c \<in> set (?p # ys). totalUnits c \<noteq> NaN"
    using Cons.prems p by auto
  from Cons.IH [OF nan]
  have mem: "foldl pick_best ?p ys \<in> set (?p # ys)"
    and dom: "\<forall>c \<in> set (?p # ys). dominated c (foldl pick_best ?p ys)" by simp_all
  have xy: "dominated x ?p \<and> dominated y ?p"
    using Cons.prems by (intro pick_best_dominates) simp_all
  from dom have dp: "dominated ?p (foldl pick_best ?p ys)" by simp
  have "dominated x (foldl pick_best ?p ys)" "dominated y (foldl pick_best ?p ys)"
    using xy dp dominated_trans by blast+
  moreover have "foldl pick_best ?p ys \<in> set (x # y # ys)"
    using mem p by auto
  ultimately show ?case using dom by simp
qed

subsection \<open>Grouping\<close>

lemma key_of_has_bbl:
  "has_bbl b \<Longrightarrow> \<exists>k. bbl b = Some k \<and> k \<noteq> [] \<and> key_of b = dedup_key k (completionYear b)"
  by (auto simp: has_bbl_def key_of_def split: option.splits)

lemma key_of_eq_iff:
  assumes "wf_building x" "wf_building b" "has_bbl x" "has_bbl b"
  shows "key_of x = key_of b \<longleftrightarrow> same_key x b"
proof -
  from key_of_has_bbl [OF assms(3)] obtain k where
    k: "bbl x = Some k" "key_of x = dedup_key k (completionYear x)" by blast
  from key_of_has_bbl [OF assms(4)] obtain k' where
    k': "bbl b = Some k'" "key_of b = dedup_key k' (completionYear b)" by blast
  from assms(1,2) k(1) k'(1) have len: "length k = length k'"
    by (simp add: wf_building_def)
  show ?thesis
    using dedup_key_inj [OF len] k k' by (auto simp: same_key_def)
qed

text \<open>The groups hold, key by key, the keyed objects seen so far, in order.\<close>

lemma group_push_inv:
  assumes d: "distinct (map fst g)"
    and f: "\<forall>(k, grp) \<in> set g. grp = filter (\<lambda>x. key_of x = k) xs"
    and c: "key_of ` set xs \<subseteq> fst ` set g"
  shows "distinct (map fst (group_push (key_of b) b g))
     \<and> (\<forall>(k, grp) \<in> set (group_push (key_of b) b g).
           grp = filter (\<lambda>x. key_of x = k) (xs @ [b]))
     \<and> key_of ` set (xs @ [b]) \<subseteq> fst ` set (group_push (key_of b) b g)"
proof (cases "key_of b \<in> fst ` set g")
  case False
  then have gp: "group_push (key_of b) b g = g @ [(key_of b, [b])]"
    by (simp add: group_push_def)
  have "key_of x \<noteq> key_of b" if "x \<in> set xs" for x
  proof
    assume "key_of x = key_of b"
    with that have "key_of b \<in> key_of ` set xs" by (metis imageI)
    with c False show False by blast
  qed
  then have "filter (\<lambda>x. key_of x = key_of b) xs = []"
    by (simp add: filter_empty_conv)
  with d f c False show ?thesis
    unfolding gp by (auto simp: rev_image_eqI)
next
  case True
  let ?h = "\<lambda>(k, grp). if k = key_of b then (k, grp @ [b]) else (k, grp)"
  from True have gp: "group_push (key_of b) b g = map ?h g"
    by (simp add: group_push_def)
  have fst_h: "map fst (map ?h g) = map fst g"
    by (induction g) (auto split: prod.splits)
  have "distinct (map fst (map ?h g))" using d by (simp only: fst_h)
  moreover have "\<forall>(k, grp) \<in> set (map ?h g). grp = filter (\<lambda>x. key_of x = k) (xs @ [b])"
    using f by (auto split: if_splits)
  moreover have "key_of ` set (xs @ [b]) \<subseteq> fst ` set (map ?h g)"
  proof -
    have "fst ` set (map ?h g) = fst ` set g"
      using fst_h by (metis set_map)
    with c True show ?thesis by auto
  qed
  ultimately show ?thesis unfolding gp by blast
qed

lemma grouped_empty: "grouped [] []"
  by (simp add: grouped_def)

lemma grouped_push:
  assumes "grouped g xs"
  shows "grouped (group_push (key_of b) b g) (xs @ [b])"
proof -
  from assms have d: "distinct (map fst g)"
    and f: "\<forall>(k, grp) \<in> set g. grp = filter (\<lambda>x. key_of x = k) xs"
    and n: "\<forall>(k, grp) \<in> set g. grp \<noteq> []"
    and c: "key_of ` set xs \<subseteq> fst ` set g"
    by (auto simp: grouped_def)
  note inv = group_push_inv [OF d f c, of b]
  have ne: "\<forall>(k, grp) \<in> set (group_push (key_of b) b g). grp \<noteq> []"
    using n by (auto simp: group_push_def split: if_splits)
  show ?thesis
    unfolding grouped_def using inv ne by (simp add: case_prod_beta)
qed

lemma group_loop_spec:
  assumes "grouped g xs"
  shows "\<exists>g'. group_loop bs u g = (u @ filter (\<lambda>b. \<not> has_bbl b) bs, g')
              \<and> grouped g' (xs @ filter has_bbl bs)"
  using assms
proof (induction bs arbitrary: u g xs)
  case Nil
  then show ?case by simp
next
  case (Cons b bs)
  show ?case
  proof (cases "has_bbl b")
    case False
    then have step: "group_loop (b # bs) u g = group_loop bs (u @ [b]) g"
      by (auto simp: has_bbl_def split: option.splits)
    from Cons.IH [OF Cons.prems, of "u @ [b]"] False show ?thesis
      unfolding step by simp
  next
    case True
    then obtain k where k: "bbl b = Some k" "k \<noteq> []"
      "key_of b = dedup_key k (completionYear b)"
      using key_of_has_bbl by blast
    then have step: "group_loop (b # bs) u g = group_loop bs u (group_push (key_of b) b g)"
      by simp
    from Cons.IH [OF grouped_push [OF Cons.prems, of b], of u] True show ?thesis
      unfolding step by simp
  qed
qed

lemma process_groups_Some:
  assumes "\<forall>(k, grp) \<in> set g. grp \<noteq> []"
  shows "process_groups g u = Some (u @ map best_of g)"
  using assms
proof (induction g arbitrary: u)
  case Nil
  then show ?case by simp
next
  case (Cons e rest)
  obtain k grp where e: "e = (k, grp)" by (cases e)
  with Cons.prems obtain x xs where grp: "grp = x # xs" by (cases grp) auto
  have rest: "\<forall>(k, grp) \<in> set rest. grp \<noteq> []" using Cons.prems by simp
  show ?case
  proof (cases "length grp = 1")
    case True
    with grp have "xs = []" by simp
    with True show ?thesis
      using Cons.IH [OF rest] by (simp add: e grp best_of_def)
  next
    case False
    then show ?thesis
      using Cons.IH [OF rest] by (simp add: e grp best_of_def)
  qed
qed

lemma distinct_filter_key:
  "distinct (map fst g) \<Longrightarrow> (k, v) \<in> set g \<Longrightarrow> filter (\<lambda>p. fst p = k) g = [(k, v)]"
proof (induction g)
  case Nil
  then show ?case by simp
next
  case (Cons p g)
  show ?case
  proof (cases "fst p = k")
    case True
    with Cons.prems have "k \<notin> fst ` set g" by auto
    then have "filter (\<lambda>p. fst p = k) g = []"
      by (auto simp: filter_empty_conv)
    moreover from True Cons.prems \<open>k \<notin> fst ` set g\<close> have "p = (k, v)"
      by (metis fst_conv imageI set_ConsD)
    ultimately show ?thesis by simp
  next
    case False
    with Cons show ?thesis by auto
  qed
qed

lemma best_of_group:
  assumes g: "grouped g xs" and e: "(k, grp) \<in> set g"
    and nan: "\<forall>x \<in> set xs. totalUnits x \<noteq> NaN"
  shows "best_of (k, grp) \<in> set grp
     \<and> set grp = {x \<in> set xs. key_of x = k}
     \<and> (\<forall>c \<in> set grp. dominated c (best_of (k, grp)))"
proof -
  from g e have ne: "grp \<noteq> []" and f: "grp = filter (\<lambda>x. key_of x = k) xs"
    by (auto simp: grouped_def)
  from f have s: "set grp = {x \<in> set xs. key_of x = k}" by auto
  from ne have c: "hd grp # tl grp = grp" by simp
  have "\<forall>c \<in> set (hd grp # tl grp). totalUnits c \<noteq> NaN"
    unfolding c using s nan by auto
  from foldl_pick_best [OF this] show ?thesis
    unfolding c best_of_def using s by simp
qed

text \<open>
  C1. For every list of construction records (an identifier that is present has ten
  characters, the unit count is a number), the deduplicator returns a list in which the
  records without identifier are those of the input, unchanged and in order, and in which
  every (identifier, completion year) key of a record with identifier has exactly one
  record; that record is one of the input records with this key, and no input record
  with this key beats it under the tie-break: more units, then an overlay, then the
  greater job number.
\<close>

theorem deduplicateBuildings_survivors:
  assumes wf: "\<forall>b \<in> set buildings. wf_building b"
  shows "\<exists>out. deduplicateBuildings buildings = Some out
     \<and> filter (\<lambda>b. \<not> has_bbl b) out = filter (\<lambda>b. \<not> has_bbl b) buildings
     \<and> (\<forall>b \<in> set buildings. has_bbl b \<longrightarrow>
          (\<exists>w. filter (\<lambda>x. has_bbl x \<and> same_key x b) out = [w]
               \<and> w \<in> set buildings
               \<and> (\<forall>c \<in> set buildings. same_key c b \<longrightarrow> dominated c w)))"
proof -
  let ?U = "filter (\<lambda>b. \<not> has_bbl b) buildings"
  let ?K = "filter has_bbl buildings"
  from group_loop_spec [OF grouped_empty, of buildings "[]"]
  obtain G where loop: "group_loop buildings [] [] = (?U, G)" and G: "grouped G ?K"
    by auto
  have ne: "\<forall>(k, grp) \<in> set G. grp \<noteq> []"
    using G by (auto simp: grouped_def)
  let ?out = "?U @ map best_of G"
  have out: "deduplicateBuildings buildings = Some ?out"
    by (simp add: deduplicateBuildings_def loop process_groups_Some [OF ne])
  have nan: "\<forall>x \<in> set ?K. totalUnits x \<noteq> NaN"
    using wf by (simp add: wf_building_def)
  have best: "best_of (k, grp) \<in> set ?K \<and> key_of (best_of (k, grp)) = k
              \<and> (\<forall>c \<in> set ?K. key_of c = k \<longrightarrow> dominated c (best_of (k, grp)))"
    if "(k, grp) \<in> set G" for k grp
    using best_of_group [OF G that nan] by auto
  have best_has: "has_bbl (best_of e)" if "e \<in> set G" for e
    using best [of "fst e" "snd e"] that by simp
  have "filter (\<lambda>b. \<not> has_bbl b) (map best_of G) = []"
    using best_has by (simp add: filter_empty_conv)
  then have passed: "filter (\<lambda>b. \<not> has_bbl b) ?out = ?U" by simp
  have one: "\<exists>w. filter (\<lambda>x. has_bbl x \<and> same_key x b) ?out = [w]
               \<and> w \<in> set buildings
               \<and> (\<forall>c \<in> set buildings. same_key c b \<longrightarrow> dominated c w)"
    if b: "b \<in> set buildings" and hb: "has_bbl b" for b
  proof -
    from b hb have "key_of b \<in> key_of ` set ?K" by simp
    with G obtain grp where e: "(key_of b, grp) \<in> set G"
      by (auto simp: grouped_def)
    let ?w = "best_of (key_of b, grp)"
    note bw = best [OF e]
    have U: "filter (\<lambda>x. has_bbl x \<and> same_key x b) ?U = []"
      by (simp add: filter_empty_conv)
    have sel: "(has_bbl (best_of p) \<and> same_key (best_of p) b) = (fst p = key_of b)"
      if p: "p \<in> set G" for p
    proof -
      from best [of "fst p" "snd p"] p
      have m: "best_of p \<in> set ?K" and k: "key_of (best_of p) = fst p" by simp_all
      from m have h: "has_bbl (best_of p)" and w: "wf_building (best_of p)"
        using wf by simp_all
      from b wf have wb: "wf_building b" by blast
      from key_of_eq_iff [OF w wb h hb] k h show ?thesis by simp
    qed
    have "filter (\<lambda>x. has_bbl x \<and> same_key x b) (map best_of G)
            = map best_of (filter (\<lambda>p. fst p = key_of b) G)"
      unfolding filter_map comp_def using sel by (metis (mono_tags, lifting) filter_cong)
    also have "\<dots> = [?w]"
      using distinct_filter_key [OF _ e] G by (simp add: grouped_def)
    finally have f: "filter (\<lambda>x. has_bbl x \<and> same_key x b) ?out = [?w]"
      using U by simp
    have dom: "dominated c ?w" if c: "c \<in> set buildings" and s: "same_key c b" for c
    proof -
      from s hb have "has_bbl c" "key_of c = key_of b"
        by (auto simp: same_key_def has_bbl_def key_of_def split: option.splits)
      with c bw show ?thesis by simp
    qed
    from bw have "?w \<in> set buildings" by simp
    with f dom show ?thesis by blast
  qed
  from out passed one show ?thesis by blast
qed

lemma show_nat_2020: "show_nat 2020 = ''2020''"
  by (simp add: show_nat.simps digit_char_def)

lemma sample_building_sel:
  "bbl (sample_building j k y u ov) = k"
  "completionYear (sample_building j k y u ov) = y"
  "totalUnits (sample_building j k y u ov) = Fin u"
  "hasAffordableOverlay (sample_building j k y u ov) = ov"
  "jobNumber (sample_building j k y u ov) = j"
  by (simp_all add: sample_building_def)

lemma dedup_example:
  "deduplicateBuildings
     [sample_building ''J1'' (Some ''1000123456'') 2020 40 False,
      sample_building ''J2'' None 2020 7 False,
      sample_building ''J3'' (Some ''1000123456'') 2020 45 True]
   = Some [sample_building ''J2'' None 2020 7 False,
           sample_building ''J3'' (Some ''1000123456'') 2020 45 True]"
  by (simp add: deduplicateBuildings_def group_push_def dedup_key_def show_int_def
        show_nat_2020 pick_best_def js_gt_def sample_building_sel)


theorem deduplicateBuildings_survivors_witness:
  "list_all wf_building
     [sample_building ''J1'' (Some ''1000123456'') 2020 40 False,
      sample_building ''J2'' None 2020 7 False,
      sample_building ''J3'' (Some ''1000123456'') 2020 45 True]
   \<and> (\<exists>out. deduplicateBuildings
         [sample_building ''J1'' (Some ''1000123456'') 2020 40 False,
          sample_building ''J2'' None 2020 7 False,
          sample_building ''J3'' (Some ''1000123456'') 2020 45 True] = Some out
     \<and> filter (\<lambda>b. \<not> has_bbl b) out = [sample_building ''J2'' None 2020 7 False]
     \<and> filter (\<lambda>x. has_bbl x
                      \<and> same_key x (sample_building ''J1'' (Some ''1000123456'') 2020 40 False)) out
         = [sample_building ''J3'' (Some ''1000123456'') 2020 45 True]
     \<and> dominated (sample_building ''J1'' (Some ''1000123456'') 2020 40 False)
                 (sample_building ''J3'' (Some ''1000123456'') 2020 45 True))"
proof -
  define b1 where "b1 = sample_building ''J1'' (Some ''1000123456'') 2020 40 False"
  define b2 where "b2 = sample_building ''J2'' None 2020 7 False"
  define b3 where "b3 = sample_building ''J3'' (Some ''1000123456'') 2020 45 True"
  note defs = b1_def b2_def b3_def
  have wf1: "wf_building b1" "wf_building b2" "wf_building b3"
    by (simp_all add: wf_building_def sample_building_sel defs)
  then have wf: "\<forall>b \<in> set [b1, b2, b3]. wf_building b" by simp
  have h1: "has_bbl b1" "has_bbl b3" "\<not> has_bbl b2"
    by (simp_all add: has_bbl_def sample_building_sel defs)
  have sk: "same_key b3 b1" "same_key b1 b1"
    by (simp_all add: same_key_def sample_building_sel defs)
  have ex: "deduplicateBuildings [b1, b2, b3] = Some [b2, b3]"
    unfolding defs by (rule dedup_example)
  from deduplicateBuildings_survivors [OF wf]
  obtain out where out: "deduplicateBuildings [b1, b2, b3] = Some out"
    and pass: "filter (\<lambda>b. \<not> has_bbl b) out = filter (\<lambda>b. \<not> has_bbl b) [b1, b2, b3]"
    and one: "\<forall>b \<in> set [b1, b2, b3]. has_bbl b \<longrightarrow>
          (\<exists>w. filter (\<lambda>x. has_bbl x \<and> same_key x b) out = [w]
               \<and> w \<in> set [b1, b2, b3]
               \<and> (\<forall>c \<in> set [b1, b2, b3]. same_key c b \<longrightarrow> dominated c w))"
    by blast
  from out ex have o: "out = [b2, b3]" by simp
  have p: "filter (\<lambda>b. \<not> has_bbl b) out = [b2]"
    unfolding pass using h1 by simp
  from one h1(1) obtain w where
    w: "filter (\<lambda>x. has_bbl x \<and> same_key x b1) out = [w]"
    and d: "\<forall>c \<in> set [b1, b2, b3]. same_key c b1 \<longrightarrow> dominated c w"
    by (metis list.set_intros(1))
  from w h1 sk have w3: "w = b3" unfolding o by simp
  from d sk(2) have dm: "dominated b1 w" by simp
  have "list_all wf_building [b1, b2, b3]" using wf1 by simp
  moreover have "\<exists>out. deduplicateBuildings [b1, b2, b3] = Some out
     \<and> filter (\<lambda>b. \<not> has_bbl b) out = [b2]
     \<and> filter (\<lambda>x. has_bbl x \<and> same_key x b1) out = [b3]
     \<and> dominated b1 b3"
    using out p w dm unfolding w3 by blast
  ultimately show ?thesis unfolding defs by (rule conjI)
qed

subsection \<open>The records of the pipeline are well formed\<close>

lemma normalizeBBL_length: "normalizeBBL v = Some s \<Longrightarrow> length s = 10"
  by (auto simp: normalizeBBL_def Let_def split: if_splits)

lemma Math_round_or_zero_not_NaN: "Math_round (or_zero x) \<noteq> NaN"
  by (cases x) (auto simp: or_zero_def)

text \<open>
  Every record that the normalizer builds, and every record after the overlay, satisfies
  the invariant on which the deduplicator relies.
\<close>

lemma process_record_wf:
  assumes "process_record r = Some b"
  shows "wf_building b"
proof -
  from assms have "bbl b = normalizeBBL (BBL r)"
    and "totalUnits b = Math_round (or_zero (ClassANet r))"
    by (auto simp: process_record_def Let_def split: if_splits option.splits)
  then show ?thesis
    using normalizeBBL_length [of "BBL r"] Math_round_or_zero_not_NaN [of "ClassANet r"]
    by (auto simp: wf_building_def split: option.splits)
qed

lemma overlay_building_wf: "wf_building b \<Longrightarrow> wf_building (overlay_building m b)"
  by (auto simp: wf_building_def overlay_building_def Let_def split: option.splits)

lemma pipeline_wf:
  "\<forall>b \<in> set (overlayAffordableData (fst (processDCPHousing records)) housingNyMap).
     wf_building b"
proof -
  have "\<forall>b \<in> set (fst (processDCPHousing records)). wf_building b"
    by (auto simp: processDCPHousing_def processDCPHousing_loop_eq List.map_filter_def
          intro: process_record_wf)
  then show ?thesis
    by (auto simp: overlayAffordableData_def intro: overlay_building_wf)
qed

section \<open>Properties of the geometry simplifier\<close>

subsection \<open>Rounding to a double\<close>

lemma powr_powi: "2 powr (of_int n) = (2::real) powi n"
  by (simp add: powr_real_of_int power_int_def power_inverse power_one_over inverse_eq_divide)

lemma round_even_of_int: "round_even (of_int n) = n"
  by (simp add: round_even_def)

lemma fl_zero: "fl 0 = Fin 0"
  by (simp add: fl_def)

lemma floor_log2_less:
  assumes "x \<noteq> 0" and "\<bar>x\<bar> < 2 powi n"
  shows "\<lfloor>log 2 \<bar>x\<bar>\<rfloor> < n"
proof -
  from assms have "\<bar>x\<bar> < 2 powr (of_int n)" by (simp add: powr_powi)
  with assms(1) have "log 2 \<bar>x\<bar> < of_int n"
    by (subst log_less_iff) simp_all
  then show ?thesis by (simp add: floor_less_iff)
qed

lemma ulp_exp_le:
  assumes "x \<noteq> 0" and "\<bar>x\<bar> < 2 powi (k + 53)" and "- 1074 \<le> k"
  shows "ulp_exp x \<le> k"
  using floor_log2_less [OF assms(1,2)] assms(3) by (simp add: ulp_exp_def)

text \<open>A number with a significand below \<open>2^53\<close> and an exponent in range is a double.\<close>

lemma fl_exact:
  assumes x: "x = of_int m * 2 powi k" and m: "\<bar>m\<bar> < 2 ^ 53" and k: "- 1074 \<le> k"
    and r: "\<bar>x\<bar> < 2 ^ 1024"
  shows "fl x = Fin x"
proof (cases "x = 0")
  case True
  then show ?thesis by (simp add: fl_zero)
next
  case False
  define e where "e = ulp_exp x"
  have "\<bar>x\<bar> = of_int \<bar>m\<bar> * 2 powi k" by (simp add: x abs_mult)
  also have "\<dots> < 2 ^ 53 * 2 powi k"
  proof -
    have "(of_int \<bar>m\<bar> :: real) < 2 ^ 53" using m by (metis of_int_less_numeral_power_cancel_iff)
    then show ?thesis by (simp add: power_int_def)
  qed
  also have "\<dots> = 2 powi (k + 53)" by (simp add: power_int_add)
  finally have "e \<le> k" unfolding e_def using ulp_exp_le [OF False _ k] by simp
  then obtain d where d: "k = e + int d"
    by (metis zle_iff_zadd)
  have p: "(2::real) powi k = 2 ^ d * 2 powi e"
    unfolding d by (simp add: power_int_add)
  have "x / 2 powi e = of_int m * 2 ^ d"
    unfolding x p by simp
  also have "\<dots> = of_int (m * 2 ^ d)" by simp
  finally have "round_even (x / 2 powi e) = m * 2 ^ d"
    by (simp only: round_even_of_int)
  then have "of_int (round_even (x / 2 powi e)) * 2 powi e
      = (of_int m :: real) * (2 ^ d * 2 powi e)"
    by simp
  also have "\<dots> = x" unfolding x p ..
  finally have y: "of_int (round_even (x / 2 powi ulp_exp x)) * 2 powi ulp_exp x = x"
    unfolding e_def .
  from r have "\<not> 2 ^ 1024 \<le> x" "\<not> x \<le> - (2 ^ 1024)" by (simp_all add: abs_less_iff)
  with False show ?thesis
    unfolding fl_def Let_def y by simp
qed



lemma fl_of_int: "\<bar>m\<bar> < 2 ^ 53 \<Longrightarrow> fl (of_int m) = Fin (of_int m)"
proof -
  assume m: "\<bar>m\<bar> < 2 ^ 53"
  then have "(of_int \<bar>m\<bar> :: real) < 2 ^ 53"
    by (metis of_int_less_numeral_power_cancel_iff)
  also have "\<dots> < (2::real) ^ 1024" by (rule power_strict_increasing) simp_all
  finally have "\<bar>of_int m :: real\<bar> < 2 ^ 1024" by simp
  with m show ?thesis by (intro fl_exact [where m = m and k = 0]) simp_all
qed

lemma fl_small:
  "fl 1 = Fin 1" "fl 2 = Fin 2" "fl 4 = Fin 4" "fl (- 2) = Fin (- 2)"
  using fl_of_int [of 1] fl_of_int [of 2] fl_of_int [of 4] fl_of_int [of "- 2"] by simp_all



subsection \<open>The recursion\<close>

lemma farthest_fold_inv:
  assumes "(d = Fin 0 \<and> i = 0) \<or> (js_lt (Fin 0) d \<and> i \<in> set js \<and> d = dist_at points i)"
  shows "case foldl (farthest_step points) (d, i) is of
           (d', i') \<Rightarrow> (d' = Fin 0 \<and> i' = 0)
              \<or> (js_lt (Fin 0) d' \<and> i' \<in> set js \<union> set is \<and> d' = dist_at points i')"
  using assms
proof (induction "is" arbitrary: d i js)
  case Nil
  then show ?case by simp
next
  case (Cons k ks)
  obtain d1 i1 where s: "farthest_step points (d, i) k = (d1, i1)"
    by (cases "farthest_step points (d, i) k")
  have pos: "js_lt (Fin 0) (dist_at points k)" if "js_gt (dist_at points k) d"
    using Cons.prems that js_lt_trans [of "Fin 0" d "dist_at points k"]
    by (auto simp: js_gt_def)
  have "(d1 = Fin 0 \<and> i1 = 0)
      \<or> (js_lt (Fin 0) d1 \<and> i1 \<in> set (js @ [k]) \<and> d1 = dist_at points i1)"
    using Cons.prems s pos
    by (auto simp: farthest_step_def Let_def split: if_splits)
  then have "case foldl (farthest_step points) (d1, i1) ks of
           (d', i') \<Rightarrow> (d' = Fin 0 \<and> i' = 0)
              \<or> (js_lt (Fin 0) d' \<and> i' \<in> set (js @ [k]) \<union> set ks
                  \<and> d' = dist_at points i')"
    by (rule Cons.IH)
  then show ?case by (simp add: s Un_commute insert_commute split: prod.splits)
qed

lemma farthest_cases:
  "(fst (farthest points) = Fin 0 \<and> snd (farthest points) = 0)
   \<or> (js_lt (Fin 0) (fst (farthest points)) \<and> 1 \<le> snd (farthest points)
        \<and> snd (farthest points) < length points - 1
        \<and> fst (farthest points) = dist_at points (snd (farthest points)))"
proof -
  have "case farthest points of
          (d', i') \<Rightarrow> (d' = Fin 0 \<and> i' = 0)
             \<or> (js_lt (Fin 0) d' \<and> i' \<in> set [] \<union> set [1 ..< length points - 1]
                 \<and> d' = dist_at points i')"
    unfolding farthest_def by (rule farthest_fold_inv) simp
  then show ?thesis by (auto split: prod.splits)
qed

text \<open>When the code recurses with a tolerance that is not negative, the split index lies
  strictly between the two ends.\<close>

lemma split_inside:
  assumes "0 \<le> tolerance" and "js_gt (fst (farthest points)) (Fin tolerance)"
  shows "1 \<le> snd (farthest points) \<and> snd (farthest points) < length points - 1"
  using farthest_cases [of points] assms by (auto simp: js_gt_def)

lemma simplifyLine_total_aux:
  assumes tol: "0 \<le> tolerance"
  shows "\<exists>out. simplifyLine points tolerance = Some out \<and> length out \<le> length points"
proof (induction points rule: length_induct)
  case (1 points)
  let ?i = "snd (farthest points)"
  show ?case
  proof (cases "length points \<le> 2 \<or> lineLength points = Fin 0
                  \<or> \<not> js_gt (fst (farthest points)) (Fin tolerance)")
    case True
    then show ?thesis
      by (subst simplifyLine.simps) auto
  next
    case False
    then have rec: "js_gt (fst (farthest points)) (Fin tolerance)" and n: "2 < length points"
      and l: "lineLength points \<noteq> Fin 0" by auto
    from split_inside [OF tol rec] have i: "1 \<le> ?i" "?i < length points - 1" by simp_all
    have ll: "length (take (?i + 1) points) < length points" using i by simp
    have lr: "length (drop ?i points) < length points" using i by simp
    from 1 ll obtain left where left: "simplifyLine (take (?i + 1) points) tolerance = Some left"
      "length left \<le> length (take (?i + 1) points)" by blast
    from 1 lr obtain right where right: "simplifyLine (drop ?i points) tolerance = Some right"
      "length right \<le> length (drop ?i points)" by blast
    have eq: "simplifyLine points tolerance = Some (butlast left @ right)"
      using n l rec left(1) right(1) by (subst simplifyLine.simps) simp
    have "length (butlast left @ right) \<le> length points"
      using left(2) right(2) i by simp
    with eq show ?thesis by simp
  qed
qed

lemma simplifyLine_diverges:
  assumes n: "2 < length points" and l: "lineLength points \<noteq> Fin 0"
    and d: "js_gt (fst (farthest points)) (Fin tolerance)" and z: "snd (farthest points) = 0"
  shows "simplifyLine points tolerance = None"
proof -
  have "\<not> (ps = points \<and> t = tolerance)" if "simplifyLine ps t = Some y" for ps t y
    apply (rule simplifyLine.raw_induct
             [where P = "\<lambda>ps t y. \<not> (ps = points \<and> t = tolerance)", OF _ that])
    subgoal premises prems for f ps t y
    proof
      assume e: "ps = points \<and> t = tolerance"
      with prems(2) n l d z obtain r where "f points tolerance = Some r"
        by (auto simp: bind_eq_Some_conv)
      with prems(1) show False by blast
    qed
    done
  then show ?thesis by (cases "simplifyLine points tolerance") auto
qed

lemma simplifyLine_short:
  "length points \<le> 2 \<Longrightarrow> simplifyLine points tolerance = Some points"
  by (subst simplifyLine.simps) simp




lemma collinear_farthest:
  "farthest [(0, 0), (1, 0), (2, 0)] = (Fin 0, 0)"
  by (simp add: farthest_def farthest_step_def dist_at_def lineLength_def f_sub_def
        fl_zero fl_small js_gt_def)

lemma collinear_lineLength: "lineLength [(0, 0), (1, 0), (2, 0)] = Fin 2"
  by (simp add: lineLength_def f_sub_def fl_zero fl_small)

lemma bend_farthest: "farthest [(0, 0), (1, 1), (2, 0)] = (Fin 1, 1)"
  by (simp add: farthest_def farthest_step_def dist_at_def lineLength_def f_sub_def
        fl_zero fl_small js_gt_def)

lemma bend_lineLength: "lineLength [(0, 0), (1, 1), (2, 0)] = Fin 2"
  by (simp add: lineLength_def f_sub_def fl_zero fl_small)

text \<open>
  C9 as stated fails for a negative tolerance. On three collinear points no interior
  point has a positive distance, so the loop leaves the split index at 0; the distance 0
  exceeds the tolerance \<open>-1\<close>, the code recurses, and the second recursive call gets
  the whole input again: the call never returns.
\<close>

theorem simplifyLine_negative_tolerance_counterexample:
  "js_gt (fst (farthest [(0, 0), (1, 0), (2, 0)])) (Fin (- 1))
   \<and> snd (farthest [(0, 0), (1, 0), (2, 0)]) = 0
   \<and> drop (snd (farthest [(0, 0), (1, 0), (2, 0)])) [(0, 0), (1, 0), (2, 0)]
       = [(0, 0), (1, 0), (2, 0)]
   \<and> simplifyLine [(0, 0), (1, 0), (2, 0)] (- 1) = None"
proof -
  have "simplifyLine [(0, 0), (1, 0), (2, 0)] (- 1) = None"
    by (rule simplifyLine_diverges)
       (simp_all add: collinear_farthest collinear_lineLength js_gt_def)
  then show ?thesis by (simp add: collinear_farthest js_gt_def)
qed

text \<open>
  C9, amended. For every list of points and every tolerance that is not negative the
  line simplifier returns; whenever it recurses, the split index lies strictly between
  the two ends, so both lists passed to the recursive calls are strictly shorter than
  the input.
\<close>

theorem simplifyLine_terminates:
  assumes "0 \<le> tolerance"
  shows "(\<exists>out. simplifyLine points tolerance = Some out)
     \<and> (2 < length points \<and> lineLength points \<noteq> Fin 0
          \<and> js_gt (fst (farthest points)) (Fin tolerance)
          \<longrightarrow> 1 \<le> snd (farthest points) \<and> snd (farthest points) < length points - 1
              \<and> length (take (snd (farthest points) + 1) points) < length points
              \<and> length (drop (snd (farthest points)) points) < length points)"
proof -
  have "\<exists>out. simplifyLine points tolerance = Some out"
    using simplifyLine_total_aux [OF assms, of points] by blast
  moreover have "1 \<le> snd (farthest points) \<and> snd (farthest points) < length points - 1
              \<and> length (take (snd (farthest points) + 1) points) < length points
              \<and> length (drop (snd (farthest points)) points) < length points"
    if "js_gt (fst (farthest points)) (Fin tolerance)"
    using split_inside [OF assms that] by auto
  ultimately show ?thesis by blast
qed

lemma bend_simplifyLine:
  "simplifyLine [(0, 0), (1, 1), (2, 0)] (1 / 2) = Some [(0, 0), (1, 1), (2, 0)]"
  by (subst simplifyLine.simps)
     (simp add: bend_farthest bend_lineLength simplifyLine_short js_gt_def)

theorem simplifyLine_terminates_witness:
  "(0::real) \<le> 1 / 2
   \<and> simplifyLine [(0, 0), (1, 1), (2, 0)] (1 / 2) = Some [(0, 0), (1, 1), (2, 0)]
   \<and> 2 < length [(0::real, 0::real), (1, 1), (2, 0)]
   \<and> lineLength [(0, 0), (1, 1), (2, 0)] \<noteq> Fin 0
   \<and> js_gt (fst (farthest [(0, 0), (1, 1), (2, 0)])) (Fin (1 / 2))
   \<and> snd (farthest [(0, 0), (1, 1), (2, 0)]) = 1
   \<and> length (take (snd (farthest [(0, 0), (1, 1), (2, 0)]) + 1) [(0::real, 0::real), (1, 1), (2, 0)]) < 3
   \<and> length (drop (snd (farthest [(0, 0), (1, 1), (2, 0)])) [(0::real, 0::real), (1, 1), (2, 0)]) < 3"
proof -
  let ?P = "[(0::real, 0::real), (1, 1), (2, 0)]"
  have t: "(0::real) \<le> 1 / 2" by simp
  have h: "2 < length ?P \<and> lineLength ?P \<noteq> Fin 0 \<and> js_gt (fst (farthest ?P)) (Fin (1 / 2))"
    by (simp add: bend_farthest bend_lineLength js_gt_def)
  from simplifyLine_terminates [OF t, of ?P] h
  have "length (take (snd (farthest ?P) + 1) ?P) < length ?P
      \<and> length (drop (snd (farthest ?P)) ?P) < length ?P"
    by blast
  then have "length (take (snd (farthest ?P) + 1) ?P) < 3
      \<and> length (drop (snd (farthest ?P)) ?P) < 3" by simp
  with t h bend_simplifyLine show ?thesis by (simp add: bend_farthest)
qed






subsection \<open>Rings with integer coordinates\<close>

subsection \<open>Rings with small integer coordinates are computed exactly\<close>








subsection \<open>A square where the cross products cancel\<close>














subsection \<open>The output of the simplifier\<close>






section \<open>Properties of the change detector\<close>

lemma js_rem_zero: "js_rem idx 0 \<noteq> Fin 0"
  by (simp add: js_rem_def)

lemma samples_short:
  assumes "length records \<le> 4"
  shows "samples records = []"
proof -
  from assms have "length records div 5 = 0" by simp
  then show ?thesis by (simp add: samples_def js_rem_def)
qed

lemma summary_a:
  "summary [[(''id'', JStr ''a'')]]
     = ''{'' @ json_quote ''count'' @ '':1,'' @ json_quote ''first'' @ '':''
       @ json_quote (''{'' @ json_quote ''id'' @ '':'' @ json_quote ''a'' @ ''}'')
       @ '','' @ json_quote ''last'' @ '':''
       @ json_quote (''{'' @ json_quote ''id'' @ '':'' @ json_quote ''a'' @ ''}'')
       @ '','' @ json_quote ''samples'' @ '':[]}''"
  by (simp add: summary_def samples_short JSON_stringify_def
        List.map_filter_simps show_nat.simps digit_char_def)

lemma hash_a: "calculateDataHash [[(''id'', JStr ''a'')]] = ''6f7f490''"
  unfolding calculateDataHash_def summary_a
  by (simp add: json_quote_def json_escape_def hash_string_def hash_step_def
        show_hex.simps hex_digit_def)

lemma show_hex_nonempty: "show_hex n \<noteq> []"
  by (subst show_hex.simps) simp

lemma calculateDataHash_nonempty: "calculateDataHash records \<noteq> []"
  by (simp add: calculateDataHash_def hash_string_def show_hex_nonempty)

text \<open>
  C10. The content fingerprint is a total function of the array: the empty array gives
  the constant \<open>empty\<close>; for one to four records the stride is zero, the remainder test
  is \<open>NaN\<close> for every index instead of an error, no sample is selected and the
  fingerprint is the hash of the summary with an empty sample list; every array gets a
  non-empty fingerprint, and equal arrays get equal fingerprints.
\<close>

theorem calculateDataHash_total:
  "calculateDataHash [] = ''empty''
   \<and> (1 \<le> length records \<and> length records \<le> 4 \<longrightarrow>
        js_rem idx (length records div 5) = NaN
        \<and> samples records = []
        \<and> calculateDataHash records = hash_string (summary records))
   \<and> calculateDataHash records \<noteq> []
   \<and> (records = records' \<longrightarrow> calculateDataHash records = calculateDataHash records')"
proof -
  have "js_rem idx (length records div 5) = NaN" if "length records \<le> 4"
    using that by (simp add: js_rem_def)
  moreover have "calculateDataHash records = hash_string (summary records)"
    if "1 \<le> length records"
    using that by (auto simp: calculateDataHash_def)
  ultimately show ?thesis
    using samples_short [of records] calculateDataHash_nonempty [of records]
    by (simp add: calculateDataHash_def)
qed

theorem calculateDataHash_total_witness:
  "1 \<le> length [[(''id'', JStr ''a'')]] \<and> length [[(''id'', JStr ''a'')]] \<le> 4
   \<and> js_rem 0 (length [[(''id'', JStr ''a'')]] div 5) = NaN
   \<and> samples [[(''id'', JStr ''a'')]] = []
   \<and> calculateDataHash [[(''id'', JStr ''a'')]] = ''6f7f490''"
proof -
  let ?R = "[[(''id'', JStr ''a'')]]"
  have l: "1 \<le> length ?R \<and> length ?R \<le> 4" by simp
  from calculateDataHash_total [of ?R 0 ?R] l
  have "js_rem 0 (length ?R div 5) = NaN \<and> samples ?R = []" by blast
  with l hash_a show ?thesis by blast
qed

lemma detect_body_count_fails:
  "count_query d t = Inl e \<Longrightarrow> detect_body d t new opts = Inl e"
  by (simp add: detect_body_def)

lemma detect_body_sample_fails:
  assumes "count_query d t = Inr c" and "c = None \<or> c = Some (int (length new))"
    and "hashData opts" and "sample_query d t = Inl e"
  shows "detect_body d t new opts = Inl e"
  using assms by (auto simp: detect_body_def compare_content_def Let_def)

lemma detectDataChanges_catch:
  "detect_body d t new opts = Inl e \<Longrightarrow>
     detectDataChanges d t new opts
       = \<lparr> hasChanges = True, reason = ''Change detection failed - proceeding with update'',
           error = Some e, stats = NoStats \<rparr>"
  by (simp add: detectDataChanges_def)

text \<open>
  C5. Whatever the new records are, when a step of the comparison fails (the count
  query, or the sample query once the counts agree) the change detector does not
  propagate the error: it returns a verdict with \<open>hasChanges = true\<close>, the fixed reason
  and the message of the error.
\<close>

theorem detectDataChanges_fails_open:
  "(detect_body d t new opts = Inl e \<longrightarrow>
      detectDataChanges d t new opts
        = \<lparr> hasChanges = True, reason = ''Change detection failed - proceeding with update'',
            error = Some e, stats = NoStats \<rparr>)
   \<and> (count_query d t = Inl e \<longrightarrow> detect_body d t new opts = Inl e)
   \<and> (count_query d t = Inr c \<and> (c = None \<or> c = Some (int (length new)))
        \<and> hashData opts \<and> sample_query d t = Inl e \<longrightarrow> detect_body d t new opts = Inl e)"
  using detectDataChanges_catch [of d t new opts e] detect_body_count_fails [of d t e new opts]
    detect_body_sample_fails [of d t c new opts e]
  by blast

theorem detectDataChanges_fails_open_witness:
  "count_query failing_db ''housing_buildings'' = Inl ''connection refused''
   \<and> detect_body failing_db ''housing_buildings'' [unit_row ''J1'' 5] default_options
       = Inl ''connection refused''
   \<and> hasChanges (detectDataChanges failing_db ''housing_buildings'' [unit_row ''J1'' 5]
        default_options)
   \<and> error (detectDataChanges failing_db ''housing_buildings'' [unit_row ''J1'' 5]
        default_options) = Some ''connection refused''"
proof -
  let ?t = "''housing_buildings''" and ?n = "[unit_row ''J1'' 5]"
  note th = detectDataChanges_fails_open
    [of failing_db ?t ?n default_options "''connection refused''" None]
  have q: "count_query failing_db ?t = Inl ''connection refused''"
    by (simp add: count_query_def failing_db_def)
  with th have b: "detect_body failing_db ?t ?n default_options = Inl ''connection refused''"
    by blast
  with th have "detectDataChanges failing_db ?t ?n default_options
        = \<lparr> hasChanges = True, reason = ''Change detection failed - proceeding with update'',
            error = Some ''connection refused'', stats = NoStats \<rparr>"
    by blast
  then have "hasChanges (detectDataChanges failing_db ?t ?n default_options)
     \<and> error (detectDataChanges failing_db ?t ?n default_options) = Some ''connection refused''"
    by simp
  with q b show ?thesis by blast
qed

subsection \<open>The hash tells texts apart that differ in one character\<close>











subsection \<open>The positions the summary reads\<close>



lemma filter_multiples_block:
  assumes "0 < k"
  shows "filter (\<lambda>i. i mod k = 0) [m * k ..< m * k + k] = [m * k]"
proof -
  have "[m * k ..< m * k + k] = (m * k) # [m * k + 1 ..< m * k + k]"
    using assms by (simp add: upt_rec)
  moreover have "filter (\<lambda>i. i mod k = 0) [m * k + 1 ..< m * k + k] = []"
  proof -
    have "i mod k \<noteq> 0" if "m * k + 1 \<le> i" "i < m * k + k" for i
    proof -
      define r where "r = i - m * k"
      with that have r: "i = m * k + r" "0 < r" "r < k" by simp_all
      then show ?thesis by simp
    qed
    then show ?thesis by (simp add: filter_empty_conv)
  qed
  ultimately show ?thesis by simp
qed

lemma filter_multiples:
  assumes "0 < k"
  shows "filter (\<lambda>i. i mod k = 0) [0 ..< m * k] = map (\<lambda>i. i * k) [0 ..< m]"
proof (induction m)
  case 0
  then show ?case by simp
next
  case (Suc m)
  have s: "Suc m * k = m * k + k" by simp
  have "[0 ..< m * k + k] = [0 ..< m * k] @ [m * k ..< m * k + k]"
    by (rule upt_add_eq_append) simp
  then have "filter (\<lambda>i. i mod k = 0) [0 ..< Suc m * k]
      = filter (\<lambda>i. i mod k = 0) [0 ..< m * k]
        @ filter (\<lambda>i. i mod k = 0) [m * k ..< m * k + k]"
    unfolding s by (simp only: filter_append)
  also have "\<dots> = map (\<lambda>i. i * k) [0 ..< m] @ [m * k]"
    by (simp only: Suc filter_multiples_block [OF assms])
  also have "\<dots> = map (\<lambda>i. i * k) [0 ..< Suc m]" by simp
  finally show ?case .
qed

lemma sample_indices_large:
  assumes "5 \<le> n"
  shows "sample_indices n = [0, n div 5, 2 * (n div 5), 3 * (n div 5), 4 * (n div 5)]"
proof -
  let ?k = "n div 5"
  from assms have k: "0 < ?k" by (simp add: div_greater_zero_iff)
  have le: "5 * ?k \<le> n" by simp
  have P: "(js_rem idx ?k = Fin 0) = (idx mod ?k = 0)" for idx
    using k by (simp add: js_rem_def)
  have "[0 ..< 5 * ?k + (n - 5 * ?k)] = [0 ..< 5 * ?k] @ [5 * ?k ..< 5 * ?k + (n - 5 * ?k)]"
    by (rule upt_add_eq_append) simp
  then have "[0 ..< n] = [0 ..< 5 * ?k] @ [5 * ?k ..< n]"
    using le by simp
  then have "filter (\<lambda>i. i mod ?k = 0) [0 ..< n]
      = map (\<lambda>i. i * ?k) [0 ..< 5] @ filter (\<lambda>i. i mod ?k = 0) [5 * ?k ..< n]"
    using filter_multiples [OF k, of 5] by simp
  then have "take 5 (filter (\<lambda>i. i mod ?k = 0) [0 ..< n]) = map (\<lambda>i. i * ?k) [0 ..< 5]"
    by simp
  also have "\<dots> = [0, ?k, 2 * ?k, 3 * ?k, 4 * ?k]" by (simp add: upt_rec)
  finally show ?thesis by (simp add: sample_indices_def P)
qed









subsection \<open>Two summaries with one hash\<close>





subsection \<open>The verdict\<close>





text \<open>
  A store that answers with an array: the line that reads the count raises, and the
  verdict is the one of the \<^verbatim>\<open>catch\<close> block, whatever the table holds and
  whatever the new records are.
\<close>

lemma detectDataChanges_array_result:
  assumes "execute d (count_sql t) = Inr (Array rs)"
  shows "detectDataChanges d t new opts
    = \<lparr> hasChanges = True, reason = ''Change detection failed - proceeding with update'',
        error = Some (''Cannot read properties of undefined (reading '' @ [CHR 0x27]
                        @ ''0'' @ [CHR 0x27] @ '')''),
        stats = NoStats \<rparr>"
  using assms
  by (simp add: detectDataChanges_def detect_body_def count_query_def read_count_def)

lemma array_store_empty:
  "reason (detectDataChanges (array_store ''buildings'' []) ''buildings'' [units_row ''J1'' 5]
      default_options) = ''Change detection failed - proceeding with update''"
proof -
  have "execute (array_store ''buildings'' []) (count_sql ''buildings'')
      = Inr (Array [[(''count'', JStr (show_nat 0))]])"
    by (simp add: array_store_def table_answer_def)
  from detectDataChanges_array_result [OF this] show ?thesis by simp
qed











end
